theory Spec2Isabelle
  imports Main "HOL-Library.Char_ord" "HOL-Library.List_Lexorder" "HOL-Library.Product_Lexorder"
    "HOL-Library.Option_ord" "HOL-Library.Multiset"
begin

section \<open>Python strings and integers\<close>

text \<open>
  A Python \<open>str\<close> is modelled as a \<open>string\<close> whose characters are the code points
  0..255; the order on strings (\<open>List_Lexorder\<close> over \<open>Char_ord\<close>) is the code point
  order, which is also SQLite's BINARY collation. Exceptions are values of \<open>py_error\<close>.
\<close>

datatype py_error =
  ValueError | TypeError | KeyError | OverflowError | IntegrityError | FileNotFoundError | CsvError

definition ebind :: "py_error + 'a \<Rightarrow> ('a \<Rightarrow> py_error + 'b) \<Rightarrow> py_error + 'b" where
  "ebind r f = (case r of Inl e \<Rightarrow> Inl e | Inr x \<Rightarrow> f x)"

text \<open>\<open>str.isspace\<close> on the code points below 256.\<close>

definition py_isspace :: "char \<Rightarrow> bool" where
  "py_isspace c = (c \<in> set [CHR 0x09, CHR 0x0A, CHR 0x0B, CHR 0x0C, CHR 0x0D,
      CHR 0x1C, CHR 0x1D, CHR 0x1E, CHR 0x1F, CHR 0x20, CHR 0x85, CHR 0xA0])"

definition py_strip :: "string \<Rightarrow> string" where
  "py_strip s = rev (dropWhile py_isspace (rev (dropWhile py_isspace s)))"

text \<open>\<open>s.split(sep)\<close> for a separator of one character.\<close>

fun py_split :: "char \<Rightarrow> string \<Rightarrow> string list" where
  "py_split sep [] = [[]]"
| "py_split sep (c # cs) =
     (if c = sep then [] # py_split sep cs
      else (case py_split sep cs of [] \<Rightarrow> [[c]] | p # ps \<Rightarrow> (c # p) # ps))"

text \<open>\<open>sep.join(xs)\<close>.\<close>

fun py_join :: "string \<Rightarrow> string list \<Rightarrow> string" where
  "py_join sep [] = []"
| "py_join sep [x] = x"
| "py_join sep (x # y # ys) = x @ sep @ py_join sep (y # ys)"

text \<open>\<open>s.replace(old, new)\<close> for a non-empty \<open>old\<close>: every occurrence, left to right.\<close>

function py_replace :: "string \<Rightarrow> string \<Rightarrow> string \<Rightarrow> string" where
  "py_replace old new s =
     (if s = [] \<or> old = [] then s
      else if take (length old) s = old then new @ py_replace old new (drop (length old) s)
      else hd s # py_replace old new (tl s))"
  by pat_completeness auto
termination
  by (relation "measure (\<lambda>(old, new, s). length s)") (auto simp: neq_Nil_conv)

definition is_digit :: "char \<Rightarrow> bool" where
  "is_digit c = (c \<in> set ''0123456789'')"

definition digit_table :: "(char \<times> nat) list" where
  "digit_table = zip ''0123456789'' [0, 1, 2, 3, 4, 5, 6, 7, 8, 9]"

definition digit_val :: "char \<Rightarrow> nat" where
  "digit_val c = (case map_of digit_table c of None \<Rightarrow> 0 | Some v \<Rightarrow> v)"

definition digit_char :: "nat \<Rightarrow> char" where
  "digit_char n = ''0123456789'' ! (n mod 10)"

definition nat_of_digits :: "string \<Rightarrow> nat" where
  "nat_of_digits ds = foldl (\<lambda>a c. 10 * a + digit_val c) 0 ds"

fun digits_of_nat :: "nat \<Rightarrow> string" where
  "digits_of_nat n =
     (if n < 10 then [digit_char n] else digits_of_nat (n div 10) @ [digit_char (n mod 10)])"

text \<open>
  The digits of a decimal numeral as \<open>int()\<close> accepts it: digits, with single underscores
  between digits.
\<close>

fun numeral_digits :: "string \<Rightarrow> string option" where
  "numeral_digits [] = None"
| "numeral_digits [c] = (if is_digit c then Some [c] else None)"
| "numeral_digits (c # d # cs) =
     (if is_digit c
      then (if d = CHR ''_'' then map_option ((#) c) (numeral_digits cs)
            else map_option ((#) c) (numeral_digits (d # cs)))
      else None)"

text \<open>
  The white space that \<open>int()\<close> skips around a numeral: the six ASCII characters of C's
  \<open>isspace\<close> and, of the other code points, those of \<open>str.isspace\<close> (U+0085 and U+00A0
  below 256). The separators U+001C..U+001F, which \<open>str.strip\<close> removes, are not among them:
  \<open>int("\x1c5")\<close> raises.
\<close>

definition int_isspace :: "char \<Rightarrow> bool" where
  "int_isspace c = (c \<in> set [CHR 0x09, CHR 0x0A, CHR 0x0B, CHR 0x0C, CHR 0x0D, CHR 0x20,
      CHR 0x85, CHR 0xA0])"

definition int_strip :: "string \<Rightarrow> string" where
  "int_strip s = rev (dropWhile int_isspace (rev (dropWhile int_isspace s)))"

text \<open>
  \<open>int(s)\<close> on a string: surrounding white space is skipped, one sign is allowed, and
  CPython refuses a numeral of more than 4300 digits. \<open>None\<close> is the ValueError.
\<close>

definition MAX_STR_DIGITS :: nat where
  "MAX_STR_DIGITS = 4300"

definition py_int :: "string \<Rightarrow> int option" where
  "py_int s =
     (let t = int_strip s;
          neg = (t \<noteq> [] \<and> hd t = CHR ''-'');
          body = (if t \<noteq> [] \<and> (hd t = CHR ''-'' \<or> hd t = CHR ''+'') then tl t else t)
      in case numeral_digits body of
           None \<Rightarrow> None
         | Some ds \<Rightarrow>
             if MAX_STR_DIGITS < length ds then None
             else Some (if neg then - int (nat_of_digits ds) else int (nat_of_digits ds)))"

text \<open>\<open>str(i)\<close> and the format specifier \<open>02d\<close>.\<close>

definition py_str_int :: "int \<Rightarrow> string" where
  "py_str_int i = (if i < 0 then CHR ''-'' # digits_of_nat (nat (- i)) else digits_of_nat (nat i))"

definition fmt_02d :: "int \<Rightarrow> string" where
  "fmt_02d i = (let s = py_str_int i in if length s < 2 then CHR ''0'' # s else s)"

text \<open>The arguments PySide and \<open>datetime\<close> convert to a C \<open>int\<close>.\<close>

definition c_int_ok :: "int \<Rightarrow> bool" where
  "c_int_ok i = (- 2147483648 \<le> i \<and> i \<le> 2147483647)"

section \<open>Dates\<close>

type_synonym ymd = "int \<times> int \<times> int"

definition is_leap :: "int \<Rightarrow> bool" where
  "is_leap y = (y mod 4 = 0 \<and> (y mod 100 \<noteq> 0 \<or> y mod 400 = 0))"

definition days_in_month :: "int \<Rightarrow> int \<Rightarrow> int" where
  "days_in_month y m =
     (if m = 2 then (if is_leap y then 29 else 28)
      else if m = 4 \<or> m = 6 \<or> m = 9 \<or> m = 11 then 30 else 31)"

text \<open>\<open>dt.date(y, m, d)\<close>: years 1..9999; dates compare as their triples.\<close>

definition valid_date :: "ymd \<Rightarrow> bool" where
  "valid_date t = (case t of (y, m, d) \<Rightarrow>
     1 \<le> y \<and> y \<le> 9999 \<and> 1 \<le> m \<and> m \<le> 12 \<and> 1 \<le> d \<and> d \<le> days_in_month y m)"

definition py_date :: "int \<Rightarrow> int \<Rightarrow> int \<Rightarrow> py_error + ymd" where
  "py_date y m d =
     (if \<not> (c_int_ok y \<and> c_int_ok m \<and> c_int_ok d) then Inl OverflowError
      else if valid_date (y, m, d) then Inr (y, m, d) else Inl ValueError)"

text \<open>
  \<open>date + dt.timedelta(days=n)\<close>: the date \<open>n\<close> days later, an OverflowError past
  9999-12-31. The library goes through day ordinals; the model steps day by day.
\<close>

definition next_day :: "ymd \<Rightarrow> py_error + ymd" where
  "next_day t = (case t of (y, m, d) \<Rightarrow>
     if d < days_in_month y m then Inr (y, m, d + 1)
     else if m < 12 then Inr (y, m + 1, 1)
     else if y < 9999 then Inr (y + 1, 1, 1)
     else Inl OverflowError)"

fun date_add_days :: "ymd \<Rightarrow> nat \<Rightarrow> py_error + ymd" where
  "date_add_days t 0 = Inr t"
| "date_add_days t (Suc n) = (case next_day t of Inl e \<Rightarrow> Inl e | Inr t' \<Rightarrow> date_add_days t' n)"

text \<open>
  \<open>QDate(y, m, d)\<close>: the invalid date is \<open>None\<close>. Qt's calendar has no year 0 and its leap
  years before year 1 are shifted by one. An argument outside the C \<open>int\<close> range raises.
\<close>

definition qt_is_leap :: "int \<Rightarrow> bool" where
  "qt_is_leap y = is_leap (if y < 1 then y + 1 else y)"

definition qt_days_in_month :: "int \<Rightarrow> int \<Rightarrow> int" where
  "qt_days_in_month y m =
     (if m = 2 then (if qt_is_leap y then 29 else 28)
      else if m = 4 \<or> m = 6 \<or> m = 9 \<or> m = 11 then 30 else 31)"

definition qt_valid :: "ymd \<Rightarrow> bool" where
  "qt_valid t = (case t of (y, m, d) \<Rightarrow>
     y \<noteq> 0 \<and> 1 \<le> m \<and> m \<le> 12 \<and> 1 \<le> d \<and> d \<le> qt_days_in_month y m)"

definition QDate :: "int \<Rightarrow> int \<Rightarrow> int \<Rightarrow> py_error + ymd option" where
  "QDate y m d =
     (if \<not> (c_int_ok y \<and> c_int_ok m \<and> c_int_ok d) then Inl OverflowError
      else if qt_valid (y, m, d) then Inr (Some (y, m, d)) else Inr None)"

definition zero_pad :: "nat \<Rightarrow> string \<Rightarrow> string" where
  "zero_pad w s = replicate (w - length s) CHR ''0'' @ s"

text \<open>\<open>qd.toString("yyyy-MM-dd")\<close> for a valid date.\<close>

definition qt_to_string :: "ymd \<Rightarrow> string" where
  "qt_to_string t = (case t of (y, m, d) \<Rightarrow>
     (if y < 0 then ''-'' else '''') @ zero_pad 4 (digits_of_nat (nat \<bar>y\<bar>)) @ ''-'' @
     zero_pad 2 (digits_of_nat (nat m)) @ ''-'' @ zero_pad 2 (digits_of_nat (nat d)))"

section \<open>Date helpers of the application\<close>

definition qdate_to_str :: "ymd option \<Rightarrow> string" where
  "qdate_to_str qd = (case qd of None \<Rightarrow> '''' | Some t \<Rightarrow> qt_to_string t)"

text \<open>The statement \<open>y, m, d = map(int, s.split("-"))\<close>.\<close>

definition int_of_str :: "string \<Rightarrow> py_error + int" where
  "int_of_str s = (case py_int s of None \<Rightarrow> Inl ValueError | Some i \<Rightarrow> Inr i)"

definition parse_ymd :: "string \<Rightarrow> py_error + ymd" where
  "parse_ymd s =
     (case py_split CHR ''-'' s of
        [a, b, c] \<Rightarrow>
          ebind (int_of_str a) (\<lambda>y. ebind (int_of_str b) (\<lambda>m. ebind (int_of_str c) (\<lambda>d. Inr (y, m, d))))
      | _ \<Rightarrow> Inl ValueError)"

definition str_to_qdate :: "string \<Rightarrow> ymd option" where
  "str_to_qdate s =
     (case ebind (parse_ymd s) (\<lambda>(y, m, d). QDate y m d) of Inl e \<Rightarrow> None | Inr q \<Rightarrow> q)"

text \<open>The body of the \<open>try\<close> of \<open>human_date\<close>, and \<open>human_date\<close> with its \<open>except\<close>.\<close>

definition human_date_try :: "string \<Rightarrow> py_error + string" where
  "human_date_try s =
     ebind (parse_ymd s) (\<lambda>(y, m, d). Inr (fmt_02d d @ ''/'' @ fmt_02d m @ ''/'' @ py_str_int y))"

definition human_date :: "string \<Rightarrow> string" where
  "human_date s = (case human_date_try s of Inl e \<Rightarrow> s | Inr r \<Rightarrow> r)"

section \<open>The database\<close>

text \<open>
  The two tables of \<open>ensure_db\<close>, with the columns as declared: a column without
  \<open>NOT NULL\<close> holds \<open>None\<close> for NULL. A table is the list of its rows in rowid order, the
  order in which SQLite returns them without \<open>ORDER BY\<close>. The \<open>AUTOINCREMENT\<close> counters of
  \<open>sqlite_sequence\<close> are part of the state. Foreign keys are not enforced (the code never
  sets the pragma). SQLite's bound on rowids (63 bits) is not modelled.
\<close>

record client_row =
  c_id :: int
  c_name :: string
  c_age :: "int option"
  c_whatsapp :: "string option"
  c_first_consult :: "string option"
  c_plan_months :: "int option"
  c_paid_returns :: "int option"
  c_rescheduled :: "int option"
  c_notes :: "string option"
  c_hidden :: "int option"

record appt_row =
  a_id :: int
  a_client_id :: int
  a_date :: string
  a_kind :: "string option"
  a_status :: "string option"

record database =
  clients :: "client_row list"
  appointments :: "appt_row list"
  seq_clients :: nat
  seq_appointments :: nat

text \<open>
  The row that \<open>INSERT INTO clients (id, name) VALUES (?, ?)\<close> creates: every other column
  takes the default that \<open>CREATE TABLE clients\<close> declares for it.
\<close>

definition clients_defaults :: "int \<Rightarrow> string \<Rightarrow> client_row" where
  "clients_defaults i n =
     \<lparr>c_id = i, c_name = n, c_age = None, c_whatsapp = None, c_first_consult = None,
      c_plan_months = Some 5, c_paid_returns = Some 0, c_rescheduled = Some 0,
      c_notes = None, c_hidden = Some 0\<rparr>"

text \<open>
  The rowid SQLite gives a row inserted without one into an \<open>AUTOINCREMENT\<close> table:
  one more than the largest rowid of the table and than the counter.
\<close>

definition new_rowid :: "int list \<Rightarrow> nat \<Rightarrow> int" where
  "new_rowid ids seq = max (case ids of [] \<Rightarrow> 1 | i # js \<Rightarrow> fold max js i + 1) (int seq + 1)"

text \<open>\<open>INSERT INTO clients (name, ...) VALUES (...)\<close>, returning \<open>cur.lastrowid\<close>.\<close>

definition insert_client :: "client_row \<Rightarrow> database \<Rightarrow> int \<times> database" where
  "insert_client r db =
     (let i = new_rowid (map c_id (clients db)) (seq_clients db)
      in (i, db\<lparr>clients := insort_key c_id (r\<lparr>c_id := i\<rparr>) (clients db), seq_clients := nat i\<rparr>))"

text \<open>\<open>INSERT INTO clients (id, name, ...)\<close> with the rowid given: the primary key is unique.\<close>

definition insert_client_with_id :: "client_row \<Rightarrow> database \<Rightarrow> py_error + database" where
  "insert_client_with_id r db =
     (if c_id r \<in> set (map c_id (clients db)) then Inl IntegrityError
      else Inr (db\<lparr>clients := insort_key c_id r (clients db),
                   seq_clients := max (seq_clients db) (nat (c_id r))\<rparr>))"

text \<open>\<open>INSERT INTO appointments (client_id, date, kind, status) VALUES (?, ?, ?, ?)\<close>.\<close>

definition insert_appointment ::
  "int \<Rightarrow> string \<Rightarrow> string option \<Rightarrow> string option \<Rightarrow> database \<Rightarrow> database" where
  "insert_appointment cid d k s db =
     (let i = new_rowid (map a_id (appointments db)) (seq_appointments db)
      in db\<lparr>appointments := insort_key a_id
               \<lparr>a_id = i, a_client_id = cid, a_date = d, a_kind = k, a_status = s\<rparr> (appointments db),
             seq_appointments := nat i\<rparr>)"

text \<open>The status and the kind that the application writes.\<close>

definition STATUS_AGENDADO :: string where
  "STATUS_AGENDADO = ''agendado''"

definition KIND_RETORNO :: string where
  "KIND_RETORNO = ''retorno''"

text \<open>
  \<open>SELECT date FROM appointments WHERE client_id=? AND status='agendado' ORDER BY date ASC\<close>.
\<close>

definition is_scheduled_of :: "int \<Rightarrow> appt_row \<Rightarrow> bool" where
  "is_scheduled_of cid a = (a_client_id a = cid \<and> a_status a = Some STATUS_AGENDADO)"

definition scheduled_dates :: "database \<Rightarrow> int \<Rightarrow> string list" where
  "scheduled_dates db cid = sort (map a_date (filter (is_scheduled_of cid) (appointments db)))"

text \<open>\<open>DELETE FROM appointments WHERE client_id=? AND status='agendado'\<close>.\<close>

definition delete_scheduled :: "int \<Rightarrow> database \<Rightarrow> database" where
  "delete_scheduled cid db =
     db\<lparr>appointments := filter (\<lambda>a. \<not> is_scheduled_of cid a) (appointments db)\<rparr>"

text \<open>The collation \<open>NOCASE\<close> folds the 26 ASCII upper case letters.\<close>

definition nocase_char :: "char \<Rightarrow> char" where
  "nocase_char c =
     (case map_of (zip ''ABCDEFGHIJKLMNOPQRSTUVWXYZ'' ''abcdefghijklmnopqrstuvwxyz'') c of
        None \<Rightarrow> c | Some l \<Rightarrow> l)"

definition nocase :: "string \<Rightarrow> string" where
  "nocase s = map nocase_char s"

text \<open>
  \<open>SELECT ... FROM clients ORDER BY hidden ASC, name COLLATE NOCASE ASC\<close>. NULL sorts first,
  as \<open>None\<close> does in the order on \<open>option\<close>. SQLite leaves the order of rows with equal keys
  open; the model keeps them in rowid order.
\<close>

definition clients_by_hidden_name :: "database \<Rightarrow> client_row list" where
  "clients_by_hidden_name db = sort_key (\<lambda>c. (c_hidden c, nocase (c_name c))) (clients db)"

text \<open>\<open>SELECT ... FROM clients c WHERE c.hidden=0 ORDER BY c.name COLLATE NOCASE ASC\<close>.\<close>

definition visible_clients_by_name :: "database \<Rightarrow> client_row list" where
  "visible_clients_by_name db =
     sort_key (\<lambda>c. nocase (c_name c)) (filter (\<lambda>c. c_hidden c = Some 0) (clients db))"

section \<open>The form and its widgets\<close>

text \<open>
  Python's \<open>x or d\<close> on a nullable integer or string, and the truth value of a nullable
  integer.
\<close>

definition or_int :: "int option \<Rightarrow> int \<Rightarrow> int" where
  "or_int v d = (case v of None \<Rightarrow> d | Some i \<Rightarrow> if i = 0 then d else i)"

definition or_str :: "string option \<Rightarrow> string \<Rightarrow> string" where
  "or_str v d = (case v of None \<Rightarrow> d | Some s \<Rightarrow> if s = [] then d else s)"

definition truthy_int :: "int option \<Rightarrow> bool" where
  "truthy_int v = (case v of None \<Rightarrow> False | Some i \<Rightarrow> i \<noteq> 0)"

text \<open>
  The widgets of \<open>build_ui\<close> that hold the record being edited. \<open>cb_plan\<close> is the current
  index of the combo box over \<open>PLAN_ITEMS\<close>; \<open>dt_first\<close> is the date of the date editor,
  which Qt keeps valid and between \<open>DT_MIN\<close> and \<open>DT_MAX\<close>. The conversion of a Python
  integer to the C \<open>int\<close> of a spin box is not modelled.
\<close>

record form_state =
  ed_id :: string
  ed_name :: string
  ed_age :: int
  ed_whats :: string
  dt_first :: ymd
  cb_plan :: nat
  sp_paid :: int
  chk_resched :: bool
  chk_hidden :: bool
  ed_notes :: string
  list_next :: "string list"

definition PLAN_ITEMS :: "string list" where
  "PLAN_ITEMS = [''1'', ''2'', ''3'', ''6'', ''12'']"

definition DT_MIN :: ymd where
  "DT_MIN = (1752, 9, 14)"

definition DT_MAX :: ymd where
  "DT_MAX = (9999, 12, 31)"

text \<open>\<open>QSpinBox.setValue\<close> keeps the value in the range of the spin box.\<close>

definition spin_set :: "int \<Rightarrow> int \<Rightarrow> int \<Rightarrow> int" where
  "spin_set lo hi v = max lo (min hi v)"

text \<open>\<open>QDateEdit.setDate\<close> ignores an invalid date and bounds a valid one.\<close>

definition dt_set_date :: "ymd option \<Rightarrow> ymd \<Rightarrow> ymd" where
  "dt_set_date q cur = (case q of None \<Rightarrow> cur | Some t \<Rightarrow> max DT_MIN (min DT_MAX t))"

text \<open>\<open>QComboBox.currentText\<close>, \<open>findText\<close> and \<open>setCurrentText\<close> (the box is not editable).\<close>

definition combo_current_text :: "nat \<Rightarrow> string" where
  "combo_current_text i = (if i < length PLAN_ITEMS then PLAN_ITEMS ! i else [])"

fun find_text :: "string \<Rightarrow> string list \<Rightarrow> nat option" where
  "find_text t [] = None"
| "find_text t (x # xs) = (if x = t then Some 0 else map_option Suc (find_text t xs))"

definition combo_set_current_text :: "string \<Rightarrow> nat \<Rightarrow> nat" where
  "combo_set_current_text t cur = (case find_text t PLAN_ITEMS of None \<Rightarrow> cur | Some i \<Rightarrow> i)"

text \<open>The widget invariants that Qt maintains.\<close>

definition form_ok :: "form_state \<Rightarrow> bool" where
  "form_ok f =
     (0 \<le> ed_age f \<and> ed_age f \<le> 120 \<and> 0 \<le> sp_paid f \<and> sp_paid f \<le> 12 \<and>
      cb_plan f < length PLAN_ITEMS \<and>
      qt_valid (dt_first f) \<and> DT_MIN \<le> dt_first f \<and> dt_first f \<le> DT_MAX)"

definition clear_form :: "ymd \<Rightarrow> form_state \<Rightarrow> form_state" where
  "clear_form today f =
     f\<lparr>ed_id := [], ed_name := [], ed_age := spin_set 0 120 0, ed_whats := [],
       dt_first := dt_set_date (Some today) (dt_first f), cb_plan := 0,
       sp_paid := spin_set 0 12 0, chk_resched := False, chk_hidden := False,
       ed_notes := [], list_next := []\<rparr>"

section \<open>The main window\<close>

datatype dialog = Warning string string | Information string string

type_synonym table_row =
  "int \<times> string \<times> int option \<times> string option \<times> string option \<times>
   int option \<times> int option \<times> int option \<times> int option"

text \<open>
  The state of the window: the database file, the form, the rows of \<open>ClientsTableModel\<close>,
  the current index of the table view (\<open>None\<close> when invalid) and the message boxes shown.
\<close>

record app =
  app_db :: database
  app_form :: form_state
  model_rows :: "table_row list"
  current_index :: "nat option"
  dialogs :: "dialog list"

definition table_row_of :: "client_row \<Rightarrow> table_row" where
  "table_row_of c =
     (c_id c, c_name c, c_age c, c_whatsapp c, c_first_consult c, c_plan_months c,
      c_paid_returns c, c_rescheduled c, c_hidden c)"

definition get_row :: "table_row list \<Rightarrow> nat \<Rightarrow> table_row option" where
  "get_row rs i = (if i < length rs then Some (rs ! i) else None)"

text \<open>\<open>load_table\<close>: the model is reset, which also resets the view's current index.\<close>

definition load_table :: "app \<Rightarrow> app" where
  "load_table st =
     st\<lparr>model_rows := map table_row_of (clients_by_hidden_name (app_db st)),
        current_index := None\<rparr>"

definition current_selected_client_id :: "app \<Rightarrow> int option" where
  "current_selected_client_id st =
     (case current_index st of
        None \<Rightarrow> None
      | Some i \<Rightarrow> (case get_row (model_rows st) i of None \<Rightarrow> None | Some r \<Rightarrow> Some (fst r)))"

text \<open>
  The setters that \<open>fill_form_from_db\<close> calls with the fetched row and the fetched dates.
\<close>

definition load_row :: "client_row \<Rightarrow> string list \<Rightarrow> form_state \<Rightarrow> form_state" where
  "load_row row dates f =
     f\<lparr>ed_id := py_str_int (c_id row),
       ed_name := c_name row,
       ed_age := spin_set 0 120 (or_int (c_age row) 0),
       ed_whats := or_str (c_whatsapp row) [],
       dt_first := dt_set_date (str_to_qdate (or_str (c_first_consult row) [])) (dt_first f),
       cb_plan := combo_set_current_text (py_str_int (or_int (c_plan_months row) 2)) (cb_plan f),
       sp_paid := spin_set 0 12 (or_int (c_paid_returns row) 0),
       chk_resched := truthy_int (c_rescheduled row),
       ed_notes := or_str (c_notes row) [],
       chk_hidden := truthy_int (c_hidden row),
       list_next := dates\<rparr>"

definition fill_form_from_db :: "int \<Rightarrow> app \<Rightarrow> app" where
  "fill_form_from_db client_id st =
     (case find (\<lambda>c. c_id c = client_id) (clients (app_db st)) of
        None \<Rightarrow> st
      | Some row \<Rightarrow>
          st\<lparr>app_form := load_row row (scheduled_dates (app_db st) client_id) (app_form st)\<rparr>)"

text \<open>The user clicks a row of the table, and the slot of the double click.\<close>

definition set_current_index :: "nat \<Rightarrow> app \<Rightarrow> app" where
  "set_current_index i st = st\<lparr>current_index := Some i\<rparr>"

definition table_double_clicked :: "nat \<Rightarrow> app \<Rightarrow> app" where
  "table_double_clicked i st =
     (case get_row (model_rows st) i of None \<Rightarrow> st | Some r \<Rightarrow> fill_form_from_db (fst r) st)"

text \<open>
  The column values that \<open>save_client\<close> and \<open>update_selected\<close> read from the form; the
  rowid is set by the statement that uses them.
\<close>

definition form_values :: "int \<Rightarrow> form_state \<Rightarrow> client_row" where
  "form_values plan f =
     \<lparr>c_id = 0,
      c_name = py_strip (ed_name f),
      c_age = Some (ed_age f),
      c_whatsapp = Some (py_strip (ed_whats f)),
      c_first_consult = Some (qdate_to_str (Some (dt_first f))),
      c_plan_months = Some plan,
      c_paid_returns = Some (sp_paid f),
      c_rescheduled = Some (if chk_resched f then 1 else 0),
      c_notes = Some (py_strip (ed_notes f)),
      c_hidden = Some (if chk_hidden f then 1 else 0)\<rparr>"

definition insert_next_dates :: "int \<Rightarrow> string list \<Rightarrow> database \<Rightarrow> database" where
  "insert_next_dates cid ds db =
     fold (\<lambda>d. insert_appointment cid d (Some KIND_RETORNO) (Some STATUS_AGENDADO)) ds db"

definition msg_validacao :: dialog where
  "msg_validacao = Warning (''Valida'' @ [CHR 0xE7, CHR 0xE3] @ ''o'') ''Informe o nome do cliente.''"

definition msg_salvo :: dialog where
  "msg_salvo = Information ''Salvo'' ''Cliente salvo com sucesso.''"

definition msg_selecao :: dialog where
  "msg_selecao = Warning (''Sele'' @ [CHR 0xE7, CHR 0xE3] @ ''o'') ''Selecione um cliente na tabela.''"

definition msg_atualizado :: dialog where
  "msg_atualizado = Information ''Atualizado'' ''Registro atualizado.''"

definition show_dialog :: "dialog \<Rightarrow> app \<Rightarrow> app" where
  "show_dialog m st = st\<lparr>dialogs := dialogs st @ [m]\<rparr>"

text \<open>
  \<open>save_client\<close>. The arguments of the INSERT are evaluated before it runs, so a ValueError
  of \<open>int(self.cb_plan.currentText())\<close> leaves the database as it was.
\<close>

definition save_client :: "ymd \<Rightarrow> app \<Rightarrow> py_error + app" where
  "save_client today st =
     (let f = app_form st; name = py_strip (ed_name f)
      in if name = [] then Inr (show_dialog msg_validacao st)
         else ebind (int_of_str (combo_current_text (cb_plan f))) (\<lambda>plan.
           let (client_id, db1) = insert_client (form_values plan f) (app_db st);
               db2 = insert_next_dates client_id (list_next f) db1
           in Inr (show_dialog msg_salvo
                (load_table (st\<lparr>app_db := db2, app_form := clear_form today f\<rparr>)))))"

text \<open>\<open>UPDATE clients SET name=?, ..., hidden=? WHERE id=?\<close>.\<close>

definition update_client :: "int \<Rightarrow> client_row \<Rightarrow> database \<Rightarrow> database" where
  "update_client cid v db =
     db\<lparr>clients := map (\<lambda>c. if c_id c = cid then v\<lparr>c_id := cid\<rparr> else c) (clients db)\<rparr>"

text \<open>\<open>update_selected\<close>; \<open>if not client_id\<close> holds for \<open>None\<close> and for the id 0.\<close>

definition update_selected :: "app \<Rightarrow> py_error + app" where
  "update_selected st =
     (case current_selected_client_id st of
        None \<Rightarrow> Inr (show_dialog msg_selecao st)
      | Some client_id \<Rightarrow>
          if client_id = 0 then Inr (show_dialog msg_selecao st)
          else ebind (int_of_str (combo_current_text (cb_plan (app_form st)))) (\<lambda>plan.
            let db1 = update_client client_id (form_values plan (app_form st)) (app_db st);
                db2 = delete_scheduled client_id db1;
                db3 = insert_next_dates client_id (list_next (app_form st)) db2
            in Inr (show_dialog msg_atualizado (load_table (st\<lparr>app_db := db3\<rparr>)))))"

section \<open>Concrete states\<close>

text \<open>States on which the theorems below are instantiated.\<close>

definition db_empty :: database where
  "db_empty = \<lparr>clients = [], appointments = [], seq_clients = 0, seq_appointments = 0\<rparr>"

definition form_ana :: form_state where
  "form_ana =
     \<lparr>ed_id = [], ed_name = ''Ana '', ed_age = 30, ed_whats = ''+5586988887777'',
      dt_first = (2024, 6, 1), cb_plan = 3, sp_paid = 2, chk_resched = False,
      chk_hidden = False, ed_notes = ''sem lactose'',
      list_next = [''2024-06-08'', ''2024-06-03'']\<rparr>"

definition form_blank :: form_state where
  "form_blank = form_ana\<lparr>ed_name := ''  ''\<rparr>"

definition app_of :: "database \<Rightarrow> form_state \<Rightarrow> app" where
  "app_of d f =
     \<lparr>app_db = d, app_form = f, model_rows = map table_row_of (clients_by_hidden_name d),
      current_index = None, dialogs = []\<rparr>"

definition appt_bea :: appt_row where
  "appt_bea = \<lparr>a_id = 1, a_client_id = 1, a_date = ''2024-06-04'', a_kind = Some KIND_RETORNO,
      a_status = Some STATUS_AGENDADO\<rparr>"

definition appt_bea_done :: appt_row where
  "appt_bea_done = \<lparr>a_id = 2, a_client_id = 1, a_date = ''2024-05-02'', a_kind = Some KIND_RETORNO,
      a_status = Some ''feito''\<rparr>"

definition appt_caio :: appt_row where
  "appt_caio = \<lparr>a_id = 3, a_client_id = 2, a_date = ''2024-06-05'', a_kind = Some KIND_RETORNO,
      a_status = Some STATUS_AGENDADO\<rparr>"

definition client_bea :: client_row where
  "client_bea =
     \<lparr>c_id = 1, c_name = ''Bea'', c_age = Some 41, c_whatsapp = Some ''+5586911112222'',
      c_first_consult = Some ''2024-05-02'', c_plan_months = Some 3, c_paid_returns = Some 1,
      c_rescheduled = Some 0, c_notes = Some '''', c_hidden = Some 0\<rparr>"

definition client_caio :: client_row where
  "client_caio =
     \<lparr>c_id = 2, c_name = ''caio'', c_age = None, c_whatsapp = Some '''',
      c_first_consult = None, c_plan_months = Some 1, c_paid_returns = Some 0,
      c_rescheduled = Some 1, c_notes = Some ''vegano'', c_hidden = Some 1\<rparr>"

definition db_two :: database where
  "db_two =
     \<lparr>clients = [client_bea, client_caio], appointments = [appt_bea, appt_bea_done, appt_caio],
      seq_clients = 2, seq_appointments = 3\<rparr>"

definition db_zero :: database where
  "db_zero =
     \<lparr>clients = [client_bea\<lparr>c_id := 0\<rparr>], appointments = [appt_bea\<lparr>a_client_id := 0\<rparr>],
      seq_clients = 0, seq_appointments = 1\<rparr>"

definition app_zero :: app where
  "app_zero = set_current_index 0 (app_of db_zero (form_ana\<lparr>list_next := []\<rparr>))"

definition app_two :: app where
  "app_two = set_current_index 0 (app_of db_two form_ana)"

text \<open>A second scheduled appointment for the first client, entered after the others.\<close>

definition db_pdf :: database where
  "db_pdf = db_two\<lparr>appointments := appointments db_two @
       [\<lparr>a_id = 4, a_client_id = 1, a_date = ''2024-06-02'', a_kind = Some KIND_RETORNO,
         a_status = Some STATUS_AGENDADO\<rparr>],
     seq_appointments := 4\<rparr>"

text \<open>A client whose name holds the start of a tag that is never closed.\<close>

definition client_markup :: client_row where
  "client_markup = client_bea\<lparr>c_id := 3, c_name := ''a <b''\<rparr>"

definition db_markup :: database where
  "db_markup = db_two\<lparr>clients := [client_bea, client_caio, client_markup], seq_clients := 3\<rparr>"

text \<open>
  A markup parser for the concrete states: it accepts their texts that hold no \<open><\<close> and
  rejects the name of \<open>client_markup\<close>.
\<close>

definition no_markup :: "string \<Rightarrow> bool" where
  "no_markup text = (CHR ''<'' \<notin> set text)"

text \<open>A client whose \<open>hidden\<close> is negative, as a CSV file can give it to \<open>import_csv\<close>.\<close>

definition client_neg :: client_row where
  "client_neg = client_caio\<lparr>c_hidden := Some (- 1)\<rparr>"

definition db_neg :: database where
  "db_neg = db_two\<lparr>clients := [client_bea, client_neg]\<rparr>"

section \<open>The weekly digest\<close>

text \<open>\<open>str(v)\<close> and \<open>v or d\<close> on a nullable integer inside an f-string.\<close>

definition py_str_opt_int :: "int option \<Rightarrow> string" where
  "py_str_opt_int v = (case v of None \<Rightarrow> ''None'' | Some i \<Rightarrow> py_str_int i)"

definition str_int_or :: "int option \<Rightarrow> string \<Rightarrow> string" where
  "str_int_or v d = (case v of None \<Rightarrow> d | Some i \<Rightarrow> if i = 0 then d else py_str_int i)"

text \<open>The date an appointment's string stands for: \<open>map(int, d.split("-"))\<close>, then \<open>dt.date\<close>.\<close>

definition appt_date :: "string \<Rightarrow> py_error + ymd" where
  "appt_date s = ebind (parse_ymd s) (\<lambda>(y, m, d2). py_date y m d2)"

text \<open>
  One turn of the loop over \<open>appts\<close>: any exception of the \<open>try\<close> body is passed over.
\<close>

definition week_step :: "ymd \<Rightarrow> ymd \<Rightarrow> string \<Rightarrow> string list \<Rightarrow> string list" where
  "week_step today limit d appts_in_week =
     (case appt_date d of
        Inl e \<Rightarrow> appts_in_week
      | Inr date_obj \<Rightarrow>
          if today \<le> date_obj \<and> date_obj \<le> limit then appts_in_week @ [human_date d]
          else appts_in_week)"

definition appts_in_week :: "ymd \<Rightarrow> ymd \<Rightarrow> string list \<Rightarrow> string list" where
  "appts_in_week today limit appts = fold (week_step today limit) appts []"

definition WEEK_HEADER :: string where
  "WEEK_HEADER = ''[ === CONSULTAS DA SEMANA === ]''"

definition WEEK_EMPTY :: string where
  "WEEK_EMPTY = ''Sem consultas nos pr'' @ [CHR 0xF3] @ ''ximos 7 dias.''"

definition digest_block :: "client_row \<Rightarrow> string list \<Rightarrow> string list" where
  "digest_block c in_week =
     [[],
      ''Nome: '' @ c_name c,
      ''Idade: '' @ str_int_or (c_age c) ''-'',
      ''WhatsApp: '' @ or_str (c_whatsapp c) ''-'',
      ''Primeira consulta: '' @
         (if or_str (c_first_consult c) [] \<noteq> [] then human_date (or_str (c_first_consult c) [])
          else ''-''),
      ''Pr'' @ [CHR 0xF3] @ ''ximas (7 dias): '' @ py_join '', '' in_week,
      ''Plano: '' @ py_str_opt_int (c_plan_months c) @ '' meses | Retornos pagos: '' @
         py_str_opt_int (c_paid_returns c),
      ''Obs: '' @ or_str (c_notes c) ''-'',
      ''[ ------------------------- ]'']"

text \<open>One turn of the loop over the visible clients.\<close>

definition digest_step :: "ymd \<Rightarrow> ymd \<Rightarrow> database \<Rightarrow> client_row \<Rightarrow> string list \<Rightarrow> string list" where
  "digest_step today limit db c lines =
     (let in_week = appts_in_week today limit (scheduled_dates db (c_id c))
      in if in_week \<noteq> [] then lines @ digest_block c in_week else lines)"

definition week_lines :: "ymd \<Rightarrow> ymd \<Rightarrow> database \<Rightarrow> string list" where
  "week_lines today limit db =
     fold (digest_step today limit db) (visible_clients_by_name db) [WEEK_HEADER]"

text \<open>
  \<open>compose_week_message\<close>, with \<open>dt.date.today()\<close> as a parameter. The sum of the date
  and the seven days is outside any \<open>try\<close>.
\<close>

definition compose_week_message :: "ymd \<Rightarrow> database \<Rightarrow> py_error + string" where
  "compose_week_message today db =
     ebind (date_add_days today 7) (\<lambda>limit.
       let lines = week_lines today limit db
       in Inr (py_join [CHR 0x0A] (if length lines = 1 then lines @ [WEEK_EMPTY] else lines)))"

text \<open>
  The window in the words of the specification: the string stands for a date, and the date
  lies between today and the limit, both included.
\<close>

definition in_week_window :: "ymd \<Rightarrow> ymd \<Rightarrow> string \<Rightarrow> bool" where
  "in_week_window today limit s =
     (case appt_date s of Inl e \<Rightarrow> False | Inr date_obj \<Rightarrow> today \<le> date_obj \<and> date_obj \<le> limit)"

section \<open>The PDF report\<close>

definition PDF_HEADER :: "string list" where
  "PDF_HEADER = [''Cliente'', ''Idade'', ''WhatsApp'', ''Primeira Consulta'',
     ''Pr'' @ [CHR 0xF3] @ ''ximas'', ''Plano'', ''Retornos pagos'', ''Obs'']"

text \<open>
  \<open>Paragraph(text, style)\<close> of reportlab reads its text as markup and raises a ValueError
  when the text is not well formed. The parser belongs to the library: it is the parameter
  \<open>parses\<close>, true of the texts that it accepts.
\<close>

definition Paragraph :: "(string \<Rightarrow> bool) \<Rightarrow> string \<Rightarrow> py_error + string" where
  "Paragraph parses text = (if parses text then Inr text else Inl ValueError)"

text \<open>
  The row that the loop of \<open>export_pdf\<close> appends for a client; a cell is its text. The
  cells are built from left to right, three of them as a \<open>Paragraph\<close>.
\<close>

definition pdf_row :: "(string \<Rightarrow> bool) \<Rightarrow> database \<Rightarrow> client_row \<Rightarrow> py_error + string list" where
  "pdf_row parses db c =
     (let dates = map human_date (scheduled_dates db (c_id c))
      in ebind (Paragraph parses
                  (c_name c @ (if truthy_int (c_hidden c) then '' (OCULTO)'' else []))) (\<lambda>name_cell.
         ebind (Paragraph parses (if dates \<noteq> [] then py_join '', '' dates else ''-'')) (\<lambda>dates_cell.
         ebind (Paragraph parses (or_str (c_notes c) ''-'')) (\<lambda>notes_cell.
           Inr [name_cell,
                str_int_or (c_age c) [],
                or_str (c_whatsapp c) [],
                human_date (or_str (c_first_consult c) []),
                dates_cell,
                py_str_opt_int (c_plan_months c),
                py_str_opt_int (c_paid_returns c),
                notes_cell]))))"

text \<open>The loop over the clients: an exception ends it, and no table is built.\<close>

fun pdf_rows ::
  "(string \<Rightarrow> bool) \<Rightarrow> database \<Rightarrow> client_row list \<Rightarrow> string list list \<Rightarrow>
   py_error + string list list" where
  "pdf_rows parses db [] data = Inr data"
| "pdf_rows parses db (c # cs) data =
     ebind (pdf_row parses db c) (\<lambda>r. pdf_rows parses db cs (data @ [r]))"

definition export_pdf_data :: "(string \<Rightarrow> bool) \<Rightarrow> database \<Rightarrow> py_error + string list list" where
  "export_pdf_data parses db = pdf_rows parses db (clients_by_hidden_name db) [PDF_HEADER]"

section \<open>CSV export and import\<close>

text \<open>
  A CSV file is modelled by its records, each the list of its fields; the quoting that
  \<open>csv.writer\<close> adds and \<open>csv.reader\<close> removes is not. The writer prints an integer with
  \<open>str\<close> and \<open>None\<close> as the empty field. The file system maps a path to a file.
\<close>

type_synonym csv_file = "string list list"

type_synonym filesystem = "string \<Rightarrow> csv_file option"

definition csv_int :: "int option \<Rightarrow> string" where
  "csv_int v = (case v of None \<Rightarrow> [] | Some i \<Rightarrow> py_str_int i)"

definition csv_str :: "string option \<Rightarrow> string" where
  "csv_str v = (case v of None \<Rightarrow> [] | Some s \<Rightarrow> s)"

definition CLIENTS_HEADER :: "string list" where
  "CLIENTS_HEADER = [''id'', ''name'', ''age'', ''whatsapp'', ''first_consult'', ''plan_months'',
     ''paid_returns'', ''rescheduled'', ''notes'', ''hidden'']"

definition APPTS_HEADER :: "string list" where
  "APPTS_HEADER = [''client_id'', ''date'', ''kind'', ''status'']"

definition client_csv_row :: "client_row \<Rightarrow> string list" where
  "client_csv_row c =
     [py_str_int (c_id c), c_name c, csv_int (c_age c), csv_str (c_whatsapp c),
      csv_str (c_first_consult c), csv_int (c_plan_months c), csv_int (c_paid_returns c),
      csv_int (c_rescheduled c), csv_str (c_notes c), csv_int (c_hidden c)]"

definition appt_csv_row :: "appt_row \<Rightarrow> string list" where
  "appt_csv_row a =
     [py_str_int (a_client_id a), a_date a, csv_str (a_kind a), csv_str (a_status a)]"

definition fn_appts_of :: "string \<Rightarrow> string" where
  "fn_appts_of fn_clients = py_replace ''.csv'' ''_consultas.csv'' fn_clients"

definition clients_csv :: "database \<Rightarrow> csv_file" where
  "clients_csv db = CLIENTS_HEADER # map client_csv_row (clients db)"

definition appts_csv :: "database \<Rightarrow> csv_file" where
  "appts_csv db = APPTS_HEADER # map appt_csv_row (appointments db)"

text \<open>\<open>export_csv\<close>; an empty file name is the cancelled file dialog.\<close>

definition export_csv :: "string \<Rightarrow> filesystem \<Rightarrow> app \<Rightarrow> filesystem \<times> app" where
  "export_csv fn_clients fs st =
     (if fn_clients = [] then (fs, st)
      else
        let fn_appts = fn_appts_of fn_clients;
            fs1 = fs(fn_clients \<mapsto> clients_csv (app_db st));
            fs2 = fs1(fn_appts \<mapsto> appts_csv (app_db st))
        in (fs2, show_dialog
              (Information ''CSV''
                 (''Exportado:'' @ [CHR 0x0A] @ fn_clients @ [CHR 0x0A] @ fn_appts)) st))"

text \<open>
  \<open>import_csv\<close> opens its files in text mode without \<open>newline=""\<close>: what it reads has
  every \<open>\r\n\<close> and every other \<open>\r\<close> turned into \<open>\n\<close>, inside quoted fields too.
\<close>

fun text_read :: "string \<Rightarrow> string" where
  "text_read [] = []"
| "text_read [c] = [if c = CHR 0x0D then CHR 0x0A else c]"
| "text_read (c # d # cs) =
     (if c = CHR 0x0D
      then (if d = CHR 0x0A then CHR 0x0A # text_read cs else CHR 0x0A # text_read (d # cs))
      else c # text_read (d # cs))"

text \<open>
  One record as \<open>csv.reader\<close> returns it: the fields after the translation of the line
  ends. The reader raises \<open>_csv.Error\<close> on a field of more than 131072 characters, the
  module's \<open>field_size_limit\<close>, which the application does not change.
\<close>

definition FIELD_SIZE_LIMIT :: nat where
  "FIELD_SIZE_LIMIT = 131072"

definition read_record :: "string list \<Rightarrow> py_error + string list" where
  "read_record r =
     (let t = map text_read r
      in if list_all (\<lambda>f. length f \<le> FIELD_SIZE_LIMIT) t then Inr t else Inl CsvError)"

text \<open>
  \<open>csv.DictReader\<close>: the first record gives the field names, empty records are skipped, and
  a record shorter than the field names has \<open>None\<close> for the missing fields. A row maps a name
  to \<open>None\<close> when the name is no key, to \<open>Some None\<close> for a missing field, and to the field.
  The reader is consumed by the loop, one record at a time: the rows it yields are listed
  in order, each the row or the exception that reading it raises.
\<close>

type_synonym csv_dict = "string \<Rightarrow> string option option"

definition dict_row :: "string list \<Rightarrow> string list \<Rightarrow> csv_dict" where
  "dict_row fieldnames r =
     map_of (rev (zip fieldnames (map Some r @ replicate (length fieldnames - length r) None)))"

definition dict_reader :: "csv_file \<Rightarrow> (py_error + csv_dict) list" where
  "dict_reader f =
     (case f of
        [] \<Rightarrow> []
      | h # rows \<Rightarrow>
          (case read_record h of
             Inl e \<Rightarrow> [Inl e]
           | Inr fieldnames \<Rightarrow>
               map (\<lambda>r. case read_record r of Inl e \<Rightarrow> Inl e | Inr t \<Rightarrow> Inr (dict_row fieldnames t))
                 (filter (\<lambda>r. r \<noteq> []) rows)))"

text \<open>\<open>row[k]\<close>, \<open>int(v)\<close>, \<open>int(v) if v else None\<close>, \<open>int(v or d)\<close> and \<open>v or None\<close>.\<close>

definition cell :: "csv_dict \<Rightarrow> string \<Rightarrow> py_error + string option" where
  "cell row k = (case row k of None \<Rightarrow> Inl KeyError | Some v \<Rightarrow> Inr v)"

definition int_cell :: "string option \<Rightarrow> py_error + int" where
  "int_cell v = (case v of None \<Rightarrow> Inl TypeError | Some s \<Rightarrow> int_of_str s)"

definition opt_int_cell :: "string option \<Rightarrow> py_error + int option" where
  "opt_int_cell v =
     (case v of None \<Rightarrow> Inr None
      | Some s \<Rightarrow> if s = [] then Inr None else ebind (int_of_str s) (\<lambda>i. Inr (Some i)))"

definition int_cell_or :: "int \<Rightarrow> string option \<Rightarrow> py_error + int" where
  "int_cell_or d v =
     (case v of None \<Rightarrow> Inr d | Some s \<Rightarrow> if s = [] then Inr d else int_of_str s)"

definition str_or_none :: "string option \<Rightarrow> string option" where
  "str_or_none v = (case v of None \<Rightarrow> None | Some s \<Rightarrow> if s = [] then None else Some s)"

text \<open>An integer that SQLite stores; binding a larger one raises an OverflowError.\<close>

definition sqlite_int_ok :: "int \<Rightarrow> bool" where
  "sqlite_int_ok i = (- 9223372036854775808 \<le> i \<and> i \<le> 9223372036854775807)"

definition opt_sqlite_int_ok :: "int option \<Rightarrow> bool" where
  "opt_sqlite_int_ok v = (case v of None \<Rightarrow> True | Some i \<Rightarrow> sqlite_int_ok i)"

text \<open>
  The \<open>INSERT INTO clients (id, name, ...)\<close> of the import: the parameters are bound, then
  \<open>NOT NULL\<close> and the primary key are checked.
\<close>

definition execute_insert_client ::
  "int \<Rightarrow> string option \<Rightarrow> int option \<Rightarrow> string option \<Rightarrow> string option \<Rightarrow> int \<Rightarrow> int \<Rightarrow> int \<Rightarrow>
   string option \<Rightarrow> int \<Rightarrow> database \<Rightarrow> py_error + database" where
  "execute_insert_client i name age whats firstc plan paid resched notes hidden db =
     (if \<not> (sqlite_int_ok i \<and> opt_sqlite_int_ok age \<and> sqlite_int_ok plan \<and> sqlite_int_ok paid \<and>
             sqlite_int_ok resched \<and> sqlite_int_ok hidden)
      then Inl OverflowError
      else case name of
        None \<Rightarrow> Inl IntegrityError
      | Some n \<Rightarrow>
          insert_client_with_id
            \<lparr>c_id = i, c_name = n, c_age = age, c_whatsapp = whats, c_first_consult = firstc,
             c_plan_months = Some plan, c_paid_returns = Some paid, c_rescheduled = Some resched,
             c_notes = notes, c_hidden = Some hidden\<rparr> db)"

text \<open>One turn of the loop over the clients file: the tuple is built left to right.\<close>

definition import_client_row :: "csv_dict \<Rightarrow> database \<Rightarrow> py_error + database" where
  "import_client_row row db =
     ebind (cell row ''id'') (\<lambda>v_id. ebind (int_cell v_id) (\<lambda>i.
     ebind (cell row ''name'') (\<lambda>name.
     ebind (cell row ''age'') (\<lambda>v_age. ebind (opt_int_cell v_age) (\<lambda>age.
     ebind (cell row ''whatsapp'') (\<lambda>whats.
     ebind (cell row ''first_consult'') (\<lambda>firstc.
     ebind (cell row ''plan_months'') (\<lambda>v_plan. ebind (int_cell_or 2 v_plan) (\<lambda>plan.
     ebind (cell row ''paid_returns'') (\<lambda>v_paid. ebind (int_cell_or 0 v_paid) (\<lambda>paid.
     ebind (cell row ''rescheduled'') (\<lambda>v_res. ebind (int_cell_or 0 v_res) (\<lambda>resched.
     ebind (cell row ''notes'') (\<lambda>notes.
     ebind (cell row ''hidden'') (\<lambda>v_hid. ebind (int_cell_or 0 v_hid) (\<lambda>hidden.
       execute_insert_client i name age whats (str_or_none firstc) plan paid resched notes
         hidden db))))))))))))))))"

text \<open>One turn of the loop over the appointments file.\<close>

definition import_appt_row :: "csv_dict \<Rightarrow> database \<Rightarrow> py_error + database" where
  "import_appt_row row db =
     ebind (cell row ''client_id'') (\<lambda>v_cid. ebind (int_cell v_cid) (\<lambda>cid.
     ebind (cell row ''date'') (\<lambda>date.
     ebind (cell row ''kind'') (\<lambda>kind.
     ebind (cell row ''status'') (\<lambda>status.
       if \<not> sqlite_int_ok cid then Inl OverflowError
       else case date of
         None \<Rightarrow> Inl IntegrityError
       | Some d \<Rightarrow> Inr (insert_appointment cid d kind status db))))))"

fun import_rows ::
  "(csv_dict \<Rightarrow> database \<Rightarrow> py_error + database) \<Rightarrow> (py_error + csv_dict) list \<Rightarrow> database \<Rightarrow>
   py_error + database" where
  "import_rows f [] db = Inr db"
| "import_rows f (r # rs) db = ebind r (\<lambda>row. ebind (f row db) (import_rows f rs))"

definition msg_csv_missing :: dialog where
  "msg_csv_missing = Warning ''CSV''
     (''Arquivo de consultas n'' @ [CHR 0xE3] @ ''o encontrado (deveria ser *_consultas.csv).'')"

definition msg_importado :: dialog where
  "msg_importado = Information ''CSV''
     (''Importa'' @ [CHR 0xE7, CHR 0xE3] @ ''o conclu'' @ [CHR 0xED] @ ''da.'')"

text \<open>
  \<open>import_csv\<close>, with the chosen file name (empty when the dialog is cancelled) and the
  answer to the confirmation as parameters. An exception inside \<open>with connect_db()\<close> rolls
  the transaction back, so \<open>Inl\<close> leaves the database as it was.
\<close>

definition import_csv :: "string \<Rightarrow> bool \<Rightarrow> filesystem \<Rightarrow> app \<Rightarrow> py_error + app" where
  "import_csv fn_clients yes fs st =
     (if fn_clients = [] then Inr st
      else if fs (fn_appts_of fn_clients) = None then Inr (show_dialog msg_csv_missing st)
      else if \<not> yes then Inr st
      else
        (case fs fn_clients of
           None \<Rightarrow> Inl FileNotFoundError
         | Some cf \<Rightarrow>
             ebind (import_rows import_client_row (dict_reader cf)
                      ((app_db st)\<lparr>appointments := [], clients := []\<rparr>)) (\<lambda>db1.
               (case fs (fn_appts_of fn_clients) of
                  None \<Rightarrow> Inl FileNotFoundError
                | Some af \<Rightarrow>
                    ebind (import_rows import_appt_row (dict_reader af) db1) (\<lambda>db2.
                      Inr (show_dialog msg_importado (load_table (st\<lparr>app_db := db2\<rparr>))))))))"

text \<open>
  The companion name in the words of the specification: the chosen file name with its
  suffix \<open>.csv\<close> replaced by \<open>_consultas.csv\<close>.
\<close>

definition companion_by_suffix :: "string \<Rightarrow> string" where
  "companion_by_suffix fn =
     (if 4 \<le> length fn \<and> drop (length fn - 4) fn = ''.csv''
      then take (length fn - 4) fn @ ''_consultas.csv'' else fn)"

text \<open>
  The rows that the application itself writes: \<open>save_client\<close>, \<open>update_selected\<close> and
  \<open>import_csv\<close> leave only \<open>age\<close> and \<open>first_consult\<close> NULL and never store an empty
  \<open>first_consult\<close>. The texts hold no carriage return, and the clients are in rowid order.
\<close>

definition no_cr :: "string \<Rightarrow> bool" where
  "no_cr s = (CHR 0x0D \<notin> set s)"

definition client_row_ok :: "client_row \<Rightarrow> bool" where
  "client_row_ok c =
     (sqlite_int_ok (c_id c) \<and> no_cr (c_name c) \<and> opt_sqlite_int_ok (c_age c) \<and>
      (case c_whatsapp c of None \<Rightarrow> False | Some s \<Rightarrow> no_cr s) \<and>
      (case c_first_consult c of None \<Rightarrow> True | Some s \<Rightarrow> s \<noteq> [] \<and> no_cr s) \<and>
      (case c_plan_months c of None \<Rightarrow> False | Some i \<Rightarrow> sqlite_int_ok i) \<and>
      (case c_paid_returns c of None \<Rightarrow> False | Some i \<Rightarrow> sqlite_int_ok i) \<and>
      (case c_rescheduled c of None \<Rightarrow> False | Some i \<Rightarrow> sqlite_int_ok i) \<and>
      (case c_notes c of None \<Rightarrow> False | Some s \<Rightarrow> no_cr s) \<and>
      (case c_hidden c of None \<Rightarrow> False | Some i \<Rightarrow> sqlite_int_ok i))"

definition appt_row_ok :: "appt_row \<Rightarrow> bool" where
  "appt_row_ok a =
     (sqlite_int_ok (a_client_id a) \<and> no_cr (a_date a) \<and>
      (case a_kind a of None \<Rightarrow> False | Some s \<Rightarrow> no_cr s) \<and>
      (case a_status a of None \<Rightarrow> False | Some s \<Rightarrow> no_cr s))"

definition db_ok :: "database \<Rightarrow> bool" where
  "db_ok db =
     (sorted_wrt (<) (map c_id (clients db)) \<and> list_all client_row_ok (clients db) \<and>
      list_all appt_row_ok (appointments db))"

definition appt_fields :: "appt_row \<Rightarrow> int \<times> string \<times> string option \<times> string option" where
  "appt_fields a = (a_client_id a, a_date a, a_kind a, a_status a)"

definition fs_x :: filesystem where
  "fs_x = [''x.csv.csv'' \<mapsto> [CLIENTS_HEADER], ''x_consultas.csv_consultas.csv'' \<mapsto> [APPTS_HEADER]]"

section \<open>Properties\<close>

declare digits_of_nat.simps [simp del]

lemma below_ten: "(n::nat) < 10 \<Longrightarrow> n \<in> {0, 1, 2, 3, 4, 5, 6, 7, 8, 9}"
  by auto

lemma digit_val_digit_char: "n < 10 \<Longrightarrow> digit_val (digit_char n) = n"
  using below_ten [of n] by (auto simp: digit_val_def digit_table_def digit_char_def)

lemma is_digit_digit_char: "is_digit (digit_char n)"
proof -
  have "n mod 10 < 10" by simp
  from below_ten [OF this] show ?thesis
    by (auto simp: is_digit_def digit_char_def)
qed

lemma digit_char_digit_val: "is_digit c \<Longrightarrow> digit_char (digit_val c) = c"
  by (auto simp: is_digit_def digit_val_def digit_table_def digit_char_def)

lemma digit_val_less: "digit_val c < 10"
  by (simp add: digit_val_def digit_table_def)

lemma digit_val_zero: "digit_val CHR ''0'' = 0"
  by (simp add: digit_val_def digit_table_def)

lemma digit_val_pos: "is_digit c \<Longrightarrow> c \<noteq> CHR ''0'' \<Longrightarrow> 0 < digit_val c"
  by (auto simp: is_digit_def digit_val_def digit_table_def)

lemma nat_of_digits_snoc: "nat_of_digits (ds @ [c]) = 10 * nat_of_digits ds + digit_val c"
  by (simp add: nat_of_digits_def)

lemma nat_of_digits_digits_of_nat: "nat_of_digits (digits_of_nat n) = n"
proof (induction n rule: digits_of_nat.induct)
  case (1 n)
  show ?case
  proof (cases "n < 10")
    case True
    then show ?thesis
      by (simp add: digits_of_nat.simps [of n] nat_of_digits_def digit_val_digit_char)
  next
    case False
    with 1 show ?thesis
      by (simp add: digits_of_nat.simps [of n] nat_of_digits_snoc digit_val_digit_char)
  qed
qed

lemma digits_of_nat_all_digits: "list_all is_digit (digits_of_nat n)"
proof (induction n rule: digits_of_nat.induct)
  case (1 n)
  then show ?case
    by (cases "n < 10") (simp_all add: digits_of_nat.simps [of n] is_digit_digit_char)
qed

lemma digits_of_nat_nonempty: "digits_of_nat n \<noteq> []"
  by (cases "n < 10") (simp_all add: digits_of_nat.simps [of n])

lemma digits_of_nat_step: "0 < k \<Longrightarrow> v < 10 \<Longrightarrow> digits_of_nat (10 * k + v) = digits_of_nat k @ [digit_char v]"
  by (subst digits_of_nat.simps) simp

lemma nat_of_digits_pos: "ds \<noteq> [] \<Longrightarrow> list_all is_digit ds \<Longrightarrow> hd ds \<noteq> CHR ''0'' \<Longrightarrow> 0 < nat_of_digits ds"
proof (induction ds rule: rev_induct)
  case Nil
  then show ?case by simp
next
  case (snoc c ds)
  show ?case
  proof (cases "ds = []")
    case True
    with snoc.prems show ?thesis
      by (simp add: nat_of_digits_def digit_val_pos)
  next
    case False
    with snoc show ?thesis by (simp add: nat_of_digits_snoc)
  qed
qed

lemma digits_of_nat_nat_of_digits:
  "ds \<noteq> [] \<Longrightarrow> list_all is_digit ds \<Longrightarrow> hd ds \<noteq> CHR ''0'' \<Longrightarrow> digits_of_nat (nat_of_digits ds) = ds"
proof (induction ds rule: rev_induct)
  case Nil
  then show ?case by simp
next
  case (snoc c ds)
  show ?case
  proof (cases "ds = []")
    case True
    with snoc.prems show ?thesis
      by (simp add: nat_of_digits_def digits_of_nat.simps digit_val_less digit_char_digit_val)
  next
    case False
    with snoc.prems have pos: "0 < nat_of_digits ds" by (simp add: nat_of_digits_pos)
    from False snoc have ih: "digits_of_nat (nat_of_digits ds) = ds" by simp
    from snoc.prems have "is_digit c" by simp
    then show ?thesis
      by (simp add: nat_of_digits_snoc digits_of_nat_step [OF pos digit_val_less] ih digit_char_digit_val)
  qed
qed

lemma not_space_digit: "is_digit c \<Longrightarrow> \<not> int_isspace c"
  by (auto simp: is_digit_def int_isspace_def)

lemma int_strip_id: "s \<noteq> [] \<Longrightarrow> \<not> int_isspace (hd s) \<Longrightarrow> \<not> int_isspace (last s) \<Longrightarrow> int_strip s = s"
proof -
  assume a: "s \<noteq> []" "\<not> int_isspace (hd s)" "\<not> int_isspace (last s)"
  then have "dropWhile int_isspace s = s" by (cases s) simp_all
  moreover from a have "dropWhile int_isspace (rev s) = rev s"
    by (cases "rev s") (simp_all add: last_rev [symmetric] hd_rev)
  ultimately show ?thesis by (simp add: int_strip_def)
qed

lemma numeral_digits_all: "ds \<noteq> [] \<Longrightarrow> list_all is_digit ds \<Longrightarrow> numeral_digits ds = Some ds"
proof (induction ds rule: numeral_digits.induct)
  case 1
  then show ?case by simp
next
  case (2 c)
  then show ?case by simp
next
  case (3 c d cs)
  from "3.prems" have "is_digit d" by simp
  then have "d \<noteq> CHR ''_''" by (auto simp: is_digit_def)
  with 3 show ?case by simp
qed

lemma py_int_digits:
  assumes "ds \<noteq> []" "list_all is_digit ds" "length ds \<le> 4300"
  shows "py_int ds = Some (int (nat_of_digits ds))"
proof -
  from assms have h: "is_digit (hd ds)" "is_digit (last ds)"
    by (cases ds; simp add: list_all_iff)+
  then have s: "int_strip ds = ds" using assms(1) by (simp add: int_strip_id not_space_digit)
  from h have "hd ds \<noteq> CHR ''-''" "hd ds \<noteq> CHR ''+''" by (auto simp: is_digit_def)
  with assms s show ?thesis
    by (simp add: py_int_def numeral_digits_all MAX_STR_DIGITS_def)
qed

lemma py_split_notin: "sep \<notin> set a \<Longrightarrow> py_split sep a = [a]"
  by (induction a) auto

lemma py_split_app: "sep \<notin> set a \<Longrightarrow> py_split sep (a @ sep # r) = a # py_split sep r"
  by (induction a) auto

subsection \<open>Date formatting\<close>

lemma py_str_int_digits:
  "ds \<noteq> [] \<Longrightarrow> list_all is_digit ds \<Longrightarrow> hd ds \<noteq> CHR ''0'' \<Longrightarrow> py_str_int (int (nat_of_digits ds)) = ds"
  by (simp add: py_str_int_def digits_of_nat_nat_of_digits)


lemma not_digit_dash: "\<not> is_digit CHR ''-''"
  by (simp add: is_digit_def)

lemma digits_no_dash: "list_all is_digit s \<Longrightarrow> CHR ''-'' \<notin> set s"
  using not_digit_dash by (auto simp: list_all_iff)

lemma parse_ymd_digits:
  assumes "y \<noteq> []" "m \<noteq> []" "d \<noteq> []" "list_all is_digit y" "list_all is_digit m" "list_all is_digit d"
    "length y \<le> 4300" "length m \<le> 4300" "length d \<le> 4300"
  shows "parse_ymd (y @ ''-'' @ m @ ''-'' @ d) =
     Inr (int (nat_of_digits y), int (nat_of_digits m), int (nat_of_digits d))"
proof -
  have sp: "py_split CHR ''-'' (y @ ''-'' @ m @ ''-'' @ d) = [y, m, d]"
    using digits_no_dash [OF assms(4)] digits_no_dash [OF assms(5)] digits_no_dash [OF assms(6)]
    by (simp add: py_split_app py_split_notin)
  have iy: "py_int y = Some (int (nat_of_digits y))"
    using assms(1,4,7) by (rule py_int_digits)
  have im: "py_int m = Some (int (nat_of_digits m))"
    using assms(2,5,8) by (rule py_int_digits)
  have id: "py_int d = Some (int (nat_of_digits d))"
    using assms(3,6,9) by (rule py_int_digits)
  show ?thesis
    unfolding parse_ymd_def sp by (simp add: int_of_str_def iy im id ebind_def)
qed












subsection \<open>Rowids and inserts\<close>

lemma fold_max_ge: "(x::int) \<le> fold max js x"
proof (induction js arbitrary: x)
  case Nil
  show ?case by simp
next
  case (Cons j js)
  have "x \<le> max j x" by simp
  also have "\<dots> \<le> fold max js (max j x)" by (rule Cons.IH)
  finally show ?case by simp
qed

lemma fold_max_mem: "j \<in> set js \<Longrightarrow> (j::int) \<le> fold max js x"
proof (induction js arbitrary: x)
  case Nil
  then show ?case by simp
next
  case (Cons k js)
  show ?case
  proof (cases "j = k")
    case True
    have "j \<le> max k x" using True by simp
    also have "\<dots> \<le> fold max js (max k x)" by (rule fold_max_ge)
    finally show ?thesis by simp
  next
    case False
    with Cons.prems have "j \<in> set js" by simp
    then show ?thesis using Cons.IH by simp
  qed
qed

lemma new_rowid_gt: "i \<in> set ids \<Longrightarrow> i < new_rowid ids seq"
proof (cases ids)
  case Nil
  assume "i \<in> set ids"
  with Nil show ?thesis by simp
next
  case (Cons k js)
  assume "i \<in> set ids"
  with Cons have "i = k \<or> i \<in> set js" by simp
  then have "i \<le> fold max js k"
    using fold_max_ge [of k js] fold_max_mem [of i js k] by auto
  with Cons show ?thesis by (simp add: new_rowid_def)
qed

lemma new_rowid_pos: "1 \<le> new_rowid ids seq"
  by (simp add: new_rowid_def)

lemma insort_key_last:
  "\<forall>y \<in> set xs. f y < f x \<Longrightarrow> insort_key f x xs = xs @ [x]"
  by (induction xs) auto

lemma insert_appointment_appends:
  "appointments (insert_appointment cid d k s db) =
     appointments db @
       [\<lparr>a_id = new_rowid (map a_id (appointments db)) (seq_appointments db), a_client_id = cid,
         a_date = d, a_kind = k, a_status = s\<rparr>]"
proof -
  let ?i = "new_rowid (map a_id (appointments db)) (seq_appointments db)"
  have "\<forall>y \<in> set (appointments db). a_id y < ?i"
    by (simp add: new_rowid_gt)
  then show ?thesis
    by (simp add: insert_appointment_def Let_def insort_key_last)
qed

lemma insert_appointment_clients [simp]:
  "clients (insert_appointment cid d k s db) = clients db"
  "seq_clients (insert_appointment cid d k s db) = seq_clients db"
  by (simp_all add: insert_appointment_def Let_def)

text \<open>The rows that a loop of inserts adds: one per date, in the order of the list.\<close>

lemma insert_next_dates_appends:
  "\<exists>news. appointments (insert_next_dates cid ds db) = appointments db @ news \<and>
     map a_date news = ds \<and>
     list_all (\<lambda>a. a_client_id a = cid \<and> a_kind a = Some KIND_RETORNO \<and>
        a_status a = Some STATUS_AGENDADO \<and> a_id a \<notin> a_id ` set (appointments db)) news \<and>
     distinct (map a_id news)"
proof (induction ds arbitrary: db)
  case Nil
  show ?case by (simp add: insert_next_dates_def)
next
  case (Cons d ds)
  define db1 where "db1 = insert_appointment cid d (Some KIND_RETORNO) (Some STATUS_AGENDADO) db"
  define i where "i = new_rowid (map a_id (appointments db)) (seq_appointments db)"
  define r where "r = \<lparr>a_id = i, a_client_id = cid, a_date = d, a_kind = Some KIND_RETORNO,
      a_status = Some STATUS_AGENDADO\<rparr>"
  have a1: "appointments db1 = appointments db @ [r]"
    unfolding db1_def r_def i_def by (rule insert_appointment_appends)
  have rf: "a_id r = i" "a_client_id r = cid" "a_date r = d" "a_kind r = Some KIND_RETORNO"
    "a_status r = Some STATUS_AGENDADO"
    by (simp_all add: r_def)
  from Cons.IH [of db1] obtain news where
    n: "appointments (insert_next_dates cid ds db1) = appointments db1 @ news \<and>
      map a_date news = ds \<and>
      list_all (\<lambda>a. a_client_id a = cid \<and> a_kind a = Some KIND_RETORNO \<and>
        a_status a = Some STATUS_AGENDADO \<and> a_id a \<notin> a_id ` set (appointments db1)) news \<and>
      distinct (map a_id news)" ..
  note n1 = n [THEN conjunct1]
  note n2 = n [THEN conjunct2, THEN conjunct1]
  note n3 = n [THEN conjunct2, THEN conjunct2, THEN conjunct1]
  note n4 = n [THEN conjunct2, THEN conjunct2, THEN conjunct2]
  have fresh: "i \<notin> a_id ` set (appointments db)"
  proof
    assume "i \<in> a_id ` set (appointments db)"
    then have "i \<in> set (map a_id (appointments db))" by simp
    then have "i < i" unfolding i_def by (rule new_rowid_gt)
    then show False by simp
  qed
  have unfold: "insert_next_dates cid (d # ds) db = insert_next_dates cid ds db1"
    by (simp add: insert_next_dates_def db1_def)
  have sub: "a_id ` set (appointments db) \<subseteq> a_id ` set (appointments db1)"
    by (auto simp: a1)
  have rin: "i \<in> a_id ` set (appointments db1)"
    using rf(1) by (simp add: a1)
  have c1: "appointments (insert_next_dates cid (d # ds) db) = appointments db @ (r # news)"
    by (simp add: unfold n1 a1)
  have c2: "map a_date (r # news) = d # ds"
    by (simp add: n2 rf)
  have c3: "list_all (\<lambda>a. a_client_id a = cid \<and> a_kind a = Some KIND_RETORNO \<and>
        a_status a = Some STATUS_AGENDADO \<and> a_id a \<notin> a_id ` set (appointments db)) news"
  proof -
    have "a_client_id a = cid \<and> a_kind a = Some KIND_RETORNO \<and>
        a_status a = Some STATUS_AGENDADO \<and> a_id a \<notin> a_id ` set (appointments db)"
      if "a \<in> set news" for a
    proof -
      from n3 [unfolded list_all_iff, THEN bspec, OF that]
      have h: "a_client_id a = cid \<and> a_kind a = Some KIND_RETORNO \<and>
        a_status a = Some STATUS_AGENDADO \<and> a_id a \<notin> a_id ` set (appointments db1)" .
      with sub have "a_id a \<notin> a_id ` set (appointments db)" by (meson subsetD)
      with h show ?thesis by simp
    qed
    then show ?thesis unfolding list_all_iff by (rule ballI)
  qed
  have c3': "list_all (\<lambda>a. a_client_id a = cid \<and> a_kind a = Some KIND_RETORNO \<and>
        a_status a = Some STATUS_AGENDADO \<and> a_id a \<notin> a_id ` set (appointments db)) (r # news)"
    using c3 fresh by (simp add: rf)
  have "i \<notin> a_id ` set news"
  proof
    assume "i \<in> a_id ` set news"
    then obtain a where a: "a \<in> set news" "a_id a = i" by auto
    from n3 [unfolded list_all_iff, THEN bspec, OF a(1)]
    have "a_id a \<notin> a_id ` set (appointments db1)" by simp
    with a(2) rin show False by simp
  qed
  then have c4: "distinct (map a_id (r # news))"
    using n4 by (simp add: rf)
  from c1 c2 c3' c4 show ?case
    by (intro exI [of _ "r # news"] conjI)
qed

lemma insert_next_dates_clients [simp]:
  "clients (insert_next_dates cid ds db) = clients db"
  by (induction ds arbitrary: db) (simp_all add: insert_next_dates_def)

lemma plan_items_int:
  assumes "i < length PLAN_ITEMS"
  shows "\<exists>p. int_of_str (combo_current_text i) = Inr p \<and> p \<noteq> 0 \<and>
     find_text (py_str_int p) PLAN_ITEMS = Some i"
proof -
  have e: "int_of_str ''1'' = Inr 1" "int_of_str ''2'' = Inr 2" "int_of_str ''3'' = Inr 3"
    "int_of_str ''6'' = Inr 6" "int_of_str ''12'' = Inr 12"
    by code_simp+
  have s: "py_str_int 1 = ''1''" "py_str_int 2 = ''2''" "py_str_int 3 = ''3''"
    "py_str_int 6 = ''6''" "py_str_int 12 = ''12''"
    by code_simp+
  from assms have "i < 5" by (simp add: PLAN_ITEMS_def)
  then have "i = 0 \<or> i = 1 \<or> i = 2 \<or> i = 3 \<or> i = 4" by arith
  then consider "i = 0" | "i = 1" | "i = 2" | "i = 3" | "i = 4"
    by blast
  then show ?thesis
  proof cases
    case 1
    then show ?thesis
      by (intro exI [of _ 1]) (simp add: combo_current_text_def PLAN_ITEMS_def e s)
  next
    case 2
    then show ?thesis
      by (intro exI [of _ 2]) (simp add: combo_current_text_def PLAN_ITEMS_def e s)
  next
    case 3
    then show ?thesis
      by (intro exI [of _ 3]) (simp add: combo_current_text_def PLAN_ITEMS_def e s)
  next
    case 4
    then show ?thesis
      by (intro exI [of _ 6]) (simp add: combo_current_text_def PLAN_ITEMS_def e s)
  next
    case 5
    then show ?thesis
      by (intro exI [of _ 12]) (simp add: combo_current_text_def PLAN_ITEMS_def e s)
  qed
qed

subsection \<open>Save, Clear and Update\<close>

text \<open>
  Claim C7. When the name field is empty after stripping white space, \<open>save_client\<close> only
  shows the validation warning: it returns normally, and the database, the form and the
  table rows are those it started from, so no client row and no appointment row is
  inserted.
\<close>

theorem save_client_empty_name:
  assumes "py_strip (ed_name (app_form st)) = []"
  shows "save_client today st = Inr (show_dialog msg_validacao st) \<and>
     app_db (show_dialog msg_validacao st) = app_db st \<and>
     app_form (show_dialog msg_validacao st) = app_form st \<and>
     model_rows (show_dialog msg_validacao st) = model_rows st \<and>
     dialogs (show_dialog msg_validacao st) = dialogs st @ [msg_validacao]"
  using assms by (simp add: save_client_def Let_def show_dialog_def)

theorem save_client_empty_name_witness:
  "py_strip (ed_name (app_form (app_of db_two form_blank))) = [] \<and>
   save_client (2024, 6, 1) (app_of db_two form_blank) =
     Inr (show_dialog msg_validacao (app_of db_two form_blank)) \<and>
   app_db (show_dialog msg_validacao (app_of db_two form_blank)) = db_two"
proof -
  have e: "py_strip (ed_name (app_form (app_of db_two form_blank))) = []"
    by (simp add: app_of_def form_blank_def py_strip_def py_isspace_def)
  have d: "app_db (app_of db_two form_blank) = db_two"
    by (simp add: app_of_def)
  from save_client_empty_name [OF e, of "(2024, 6, 1)"] e d show ?thesis by simp
qed

text \<open>
  \<open>clear_form\<close> selects the first item of the plan combo box, so the plan field reads 1
  after Clear, whatever it held before.
\<close>

lemma clear_form_plan:
  "combo_current_text (cb_plan (clear_form today f)) = ''1'' \<and>
   int_of_str (combo_current_text (cb_plan (clear_form today f))) = Inr 1"
proof -
  have "combo_current_text (cb_plan (clear_form today f)) = ''1''"
    by (simp add: clear_form_def combo_current_text_def PLAN_ITEMS_def)
  moreover have "int_of_str ''1'' = Inr 1" by code_simp
  ultimately show ?thesis by simp
qed

text \<open>
  Claim C6: the default \<open>plan_months\<close> is 2, for a row created without the column and for
  the form after Clear. The code has three different defaults. The fallback for a stored
  NULL or 0, \<open>row[5] or 2\<close> in \<open>fill_form_from_db\<close>, is the 2 of the claim. The schema
  declares \<open>DEFAULT 5\<close>, a value that its own comment (1, 2, 3, 6, 12) does not list and the
  combo box cannot show: a row created without \<open>plan_months\<close> takes 5. And Clear selects
  the first item of the combo box, which is 1.
\<close>

theorem default_plan_values:
  "c_plan_months (clients_defaults 1 ''Ana'') = Some 5 \<and>
   ''5'' \<notin> set PLAN_ITEMS \<and>
   combo_current_text (cb_plan (clear_form (2024, 6, 1) form_ana)) = ''1'' \<and>
   or_int None 2 = 2 \<and> or_int (Some 0) 2 = 2"
  by (simp add: clear_form_def combo_current_text_def PLAN_ITEMS_def clients_defaults_def
      or_int_def)

lemma app_db_show_dialog [simp]: "app_db (show_dialog m st) = app_db st"
  by (simp add: show_dialog_def)

lemma app_db_load_table [simp]: "app_db (load_table st) = app_db st"
  by (simp add: load_table_def)

lemma appointments_update_client [simp]:
  "appointments (update_client cid v db) = appointments db"
  by (simp add: update_client_def)

lemma appointments_delete_scheduled:
  "appointments (delete_scheduled cid db) =
     filter (\<lambda>a. \<not> (a_client_id a = cid \<and> a_status a = Some STATUS_AGENDADO)) (appointments db)"
  by (simp add: delete_scheduled_def is_scheduled_of_def)

lemma update_selected_result:
  assumes "current_selected_client_id st = Some cid" "cid \<noteq> 0"
    "int_of_str (combo_current_text (cb_plan (app_form st))) = Inr p"
  shows "update_selected st =
     Inr (show_dialog msg_atualizado (load_table (st\<lparr>app_db :=
       insert_next_dates cid (list_next (app_form st))
         (delete_scheduled cid (update_client cid (form_values p (app_form st)) (app_db st)))\<rparr>)))"
  using assms by (simp add: update_selected_def ebind_def Let_def)

text \<open>
  The full replace of \<open>update_selected\<close>. With a client of a non-zero id selected,
  \<open>update_selected\<close> succeeds and the appointments table becomes: the old rows except the selected client's
  rows of status \<open>agendado\<close>, in their old order, followed by one new row per date of the
  form list, in the order of the list, each for the selected client, of kind \<open>retorno\<close> and
  status \<open>agendado\<close>, under a rowid that no kept row has. So the client's rows of another
  status and the rows of other clients are left as they were.
\<close>

theorem update_selected_full_replace:
  assumes "current_selected_client_id st = Some cid" and "cid \<noteq> 0"
    and "cb_plan (app_form st) < length PLAN_ITEMS"
  shows "\<exists>st' news. update_selected st = Inr st' \<and>
     appointments (app_db st') =
       filter (\<lambda>a. \<not> (a_client_id a = cid \<and> a_status a = Some STATUS_AGENDADO))
         (appointments (app_db st)) @ news \<and>
     map a_date news = list_next (app_form st) \<and>
     list_all (\<lambda>a. a_client_id a = cid \<and> a_kind a = Some KIND_RETORNO \<and>
        a_status a = Some STATUS_AGENDADO \<and>
        a_id a \<notin> a_id ` set (filter (\<lambda>a. \<not> (a_client_id a = cid \<and> a_status a = Some STATUS_AGENDADO))
           (appointments (app_db st)))) news \<and>
     distinct (map a_id news)"
proof -
  from plan_items_int [OF assms(3)] obtain p where
    p: "int_of_str (combo_current_text (cb_plan (app_form st))) = Inr p" by blast
  define db2 where
    "db2 = delete_scheduled cid (update_client cid (form_values p (app_form st)) (app_db st))"
  define st' where "st' = show_dialog msg_atualizado (load_table (st\<lparr>app_db :=
       insert_next_dates cid (list_next (app_form st)) db2\<rparr>))"
  have r: "update_selected st = Inr st'"
    unfolding st'_def db2_def by (rule update_selected_result [OF assms(1,2) p])
  have k: "appointments db2 =
     filter (\<lambda>a. \<not> (a_client_id a = cid \<and> a_status a = Some STATUS_AGENDADO)) (appointments (app_db st))"
    by (simp add: db2_def appointments_delete_scheduled)
  have d: "app_db st' = insert_next_dates cid (list_next (app_form st)) db2"
    by (simp add: st'_def)
  from insert_next_dates_appends [of cid "list_next (app_form st)" db2] obtain news where
    n: "appointments (insert_next_dates cid (list_next (app_form st)) db2) = appointments db2 @ news \<and>
     map a_date news = list_next (app_form st) \<and>
     list_all (\<lambda>a. a_client_id a = cid \<and> a_kind a = Some KIND_RETORNO \<and>
        a_status a = Some STATUS_AGENDADO \<and> a_id a \<notin> a_id ` set (appointments db2)) news \<and>
     distinct (map a_id news)" ..
  note n1 = n [THEN conjunct1]
  note n2 = n [THEN conjunct2, THEN conjunct1]
  note n3 = n [THEN conjunct2, THEN conjunct2, THEN conjunct1]
  note n4 = n [THEN conjunct2, THEN conjunct2, THEN conjunct2]
  have g1: "appointments (app_db st') =
       filter (\<lambda>a. \<not> (a_client_id a = cid \<and> a_status a = Some STATUS_AGENDADO))
         (appointments (app_db st)) @ news"
    using n1 by (simp only: d k)
  have g3: "list_all (\<lambda>a. a_client_id a = cid \<and> a_kind a = Some KIND_RETORNO \<and>
        a_status a = Some STATUS_AGENDADO \<and>
        a_id a \<notin> a_id ` set (filter (\<lambda>a. \<not> (a_client_id a = cid \<and> a_status a = Some STATUS_AGENDADO))
           (appointments (app_db st)))) news"
    using n3 by (simp only: k)
  show ?thesis
    by (rule exI [of _ st'], rule exI [of _ news]) (intro conjI r g1 n2 g3 n4)
qed

lemma app_two_selected: "current_selected_client_id app_two = Some 1"
  by (simp add: app_two_def set_current_index_def app_of_def current_selected_client_id_def
      get_row_def clients_by_hidden_name_def db_two_def client_bea_def client_caio_def
      table_row_of_def)

theorem update_selected_full_replace_witness:
  "current_selected_client_id app_two = Some 1 \<and> (1::int) \<noteq> 0 \<and>
   cb_plan (app_form app_two) < length PLAN_ITEMS \<and>
   (\<exists>st' news. update_selected app_two = Inr st' \<and>
     appointments (app_db st') =
       filter (\<lambda>a. \<not> (a_client_id a = 1 \<and> a_status a = Some STATUS_AGENDADO))
         (appointments (app_db app_two)) @ news \<and>
     map a_date news = list_next (app_form app_two) \<and>
     list_all (\<lambda>a. a_client_id a = 1 \<and> a_kind a = Some KIND_RETORNO \<and>
        a_status a = Some STATUS_AGENDADO \<and>
        a_id a \<notin> a_id ` set (filter (\<lambda>a. \<not> (a_client_id a = 1 \<and> a_status a = Some STATUS_AGENDADO))
           (appointments (app_db app_two)))) news \<and>
     distinct (map a_id news))"
proof -
  have h1: "current_selected_client_id app_two = Some 1" by (rule app_two_selected)
  have h2: "(1::int) \<noteq> 0" by simp
  have h3: "cb_plan (app_form app_two) < length PLAN_ITEMS"
    by (simp add: app_two_def set_current_index_def app_of_def form_ana_def PLAN_ITEMS_def)
  from update_selected_full_replace [OF h1 h2 h3] h1 h2 h3 show ?thesis by (intro conjI)
qed

text \<open>
  Claim C1: for every client id, Update replaces the client's scheduled appointments by
  the dates of the form list. The code misses the client id 0. The guard
  \<open>if not client_id\<close> of \<open>update_selected\<close> is meant for no selection (\<open>None\<close>) and is
  also true of the id 0, which \<open>import_csv\<close> stores when the file gives it. With
  the client 0 selected, whom a double click loads into the form like any other, and an
  empty form list, Update only shows the warning: the scheduled row of the client stays,
  where the full replace leaves none.
\<close>

theorem update_selected_id_zero:
  "current_selected_client_id app_zero = Some 0 \<and>
   ed_id (app_form (table_double_clicked 0 app_zero)) = ''0'' \<and>
   list_next (app_form app_zero) = [] \<and>
   update_selected app_zero = Inr (show_dialog msg_selecao app_zero) \<and>
   appointments (app_db (show_dialog msg_selecao app_zero)) = [appt_bea\<lparr>a_client_id := 0\<rparr>] \<and>
   a_status (appt_bea\<lparr>a_client_id := 0\<rparr>) = Some STATUS_AGENDADO"
proof -
  have s: "current_selected_client_id app_zero = Some 0"
    by (simp add: app_zero_def set_current_index_def app_of_def current_selected_client_id_def
      get_row_def clients_by_hidden_name_def db_zero_def client_bea_def table_row_of_def)
  then have u: "update_selected app_zero = Inr (show_dialog msg_selecao app_zero)"
    by (simp add: update_selected_def)
  have d: "app_db app_zero = db_zero" "list_next (app_form app_zero) = []"
    by (simp_all add: app_zero_def set_current_index_def app_of_def)
  have l: "ed_id (app_form (table_double_clicked 0 app_zero)) = ''0''"
    by code_simp
  have a: "appointments (app_db (show_dialog msg_selecao app_zero)) =
      [appt_bea\<lparr>a_client_id := 0\<rparr>]"
    by (simp add: d db_zero_def)
  have k: "a_status (appt_bea\<lparr>a_client_id := 0\<rparr>) = Some STATUS_AGENDADO"
    by (simp add: appt_bea_def)
  from s l d(2) u a k show ?thesis by (intro conjI)
qed

subsection \<open>Round trips through the form\<close>

lemma py_strip_idem: "py_strip (py_strip s) = py_strip s"
proof -
  define t where "t = dropWhile py_isspace s"
  define u where "u = rev (dropWhile py_isspace (rev t))"
  have su: "py_strip s = u" by (simp add: py_strip_def t_def u_def)
  have "t = rev (takeWhile py_isspace (rev t) @ dropWhile py_isspace (rev t))" by simp
  also have "\<dots> = rev (dropWhile py_isspace (rev t)) @ rev (takeWhile py_isspace (rev t))"
    by (rule rev_append)
  finally have tu: "t = u @ rev (takeWhile py_isspace (rev t))"
    by (simp only: u_def)
  have d1: "dropWhile py_isspace u = u"
  proof (cases u)
    case Nil
    then show ?thesis by simp
  next
    case (Cons c cs)
    from tu Cons have "t = c # (cs @ rev (takeWhile py_isspace (rev t)))" by simp
    then have "t \<noteq> []" "hd t = c" by (cases t; simp)+
    moreover have "t \<noteq> [] \<Longrightarrow> \<not> py_isspace (hd t)"
      unfolding t_def by (rule hd_dropWhile)
    ultimately have "\<not> py_isspace c" by simp
    with Cons show ?thesis by simp
  qed
  have d2: "dropWhile py_isspace (rev u) = rev u"
    by (simp add: u_def)
  show ?thesis
    unfolding su by (simp add: py_strip_def d1 d2)
qed

lemma digits_length_bound: "0 < k \<Longrightarrow> n < 10 ^ k \<Longrightarrow> length (digits_of_nat n) \<le> k"
proof (induction n arbitrary: k rule: digits_of_nat.induct)
  case (1 n)
  show ?case
  proof (cases "n < 10")
    case True
    with "1.prems" show ?thesis by (simp add: digits_of_nat.simps [of n])
  next
    case False
    then have "1 < k" using "1.prems"
      by (cases "k = 1") auto
    then obtain j where j: "k = Suc j" "0 < j" by (cases k) auto
    from "1.prems" j have "n div 10 < 10 ^ j"
      by (simp add: less_mult_imp_div_less mult.commute)
    with "1.IH" [OF False j(2)] have "length (digits_of_nat (n div 10)) \<le> j" by simp
    with False j show ?thesis by (simp add: digits_of_nat.simps [of n])
  qed
qed

lemma nat_of_digits_zeros: "nat_of_digits (replicate k CHR ''0'' @ ds) = nat_of_digits ds"
proof -
  have "foldl (\<lambda>a c. 10 * a + digit_val c) 0 (replicate k CHR ''0'') = 0"
    by (induction k) (simp_all add: digit_val_zero)
  then show ?thesis by (simp add: nat_of_digits_def)
qed

lemma is_digit_zero: "is_digit CHR ''0''"
  by (simp add: is_digit_def)

lemma py_int_zero_pad:
  assumes "n < 10 ^ w" "0 < w" "w \<le> 4300"
  shows "py_int (zero_pad w (digits_of_nat n)) = Some (int n)"
    and "list_all is_digit (zero_pad w (digits_of_nat n))"
    and "zero_pad w (digits_of_nat n) \<noteq> []"
    and "length (zero_pad w (digits_of_nat n)) = w"
proof -
  let ?z = "zero_pad w (digits_of_nat n)"
  have len: "length (digits_of_nat n) \<le> w" using assms by (simp add: digits_length_bound)
  show l: "length ?z = w" using len by (simp add: zero_pad_def)
  show d: "list_all is_digit ?z"
    using digits_of_nat_all_digits [of n] by (auto simp: zero_pad_def list_all_iff is_digit_zero)
  show ne: "?z \<noteq> []" using digits_of_nat_nonempty [of n] by (simp add: zero_pad_def)
  have "length ?z \<le> 4300" using l assms by simp
  from py_int_digits [OF ne d this]
  show "py_int ?z = Some (int n)"
    by (simp add: zero_pad_def nat_of_digits_zeros nat_of_digits_digits_of_nat)
qed

lemma widget_date_bounds:
  assumes "DT_MIN \<le> (y, m, d)" "(y, m, d) \<le> DT_MAX" "qt_valid (y, m, d)"
  shows "1752 \<le> y" "y \<le> 9999" "1 \<le> m" "m \<le> 12" "1 \<le> d" "d \<le> 31"
proof -
  from assms(1) show "1752 \<le> y" by (auto simp: DT_MIN_def)
  from assms(2) show "y \<le> 9999" by (auto simp: DT_MAX_def)
  from assms(3) show "1 \<le> m" "m \<le> 12" "1 \<le> d" by (simp_all add: qt_valid_def)
  have "qt_days_in_month y m \<le> 31" by (simp add: qt_days_in_month_def)
  with assms(3) show "d \<le> 31" by (simp add: qt_valid_def)
qed

lemma str_to_qdate_qt_to_string:
  assumes "DT_MIN \<le> (y, m, d)" "(y, m, d) \<le> DT_MAX" "qt_valid (y, m, d)"
  shows "str_to_qdate (qt_to_string (y, m, d)) = Some (y, m, d)"
    and "qt_to_string (y, m, d) \<noteq> []"
proof -
  note b = widget_date_bounds [OF assms]
  define Y where "Y = zero_pad 4 (digits_of_nat (nat \<bar>y\<bar>))"
  define M where "M = zero_pad 2 (digits_of_nat (nat m))"
  define D where "D = zero_pad 2 (digits_of_nat (nat d))"
  have ny: "nat \<bar>y\<bar> < 10 ^ 4" and nm: "nat m < 10 ^ 2" and nd: "nat d < 10 ^ 2"
    using b by simp_all
  note py = py_int_zero_pad [OF ny, folded Y_def]
  note pm = py_int_zero_pad [OF nm, folded M_def]
  note pd = py_int_zero_pad [OF nd, folded D_def]
  have vy: "nat_of_digits Y = nat \<bar>y\<bar>" and vm: "nat_of_digits M = nat m"
    and vd: "nat_of_digits D = nat d"
    by (simp_all add: Y_def M_def D_def zero_pad_def nat_of_digits_zeros nat_of_digits_digits_of_nat)
  have s: "qt_to_string (y, m, d) = Y @ ''-'' @ M @ ''-'' @ D"
    using b by (simp add: qt_to_string_def Y_def M_def D_def)
  have "parse_ymd (Y @ ''-'' @ M @ ''-'' @ D) =
      Inr (int (nat_of_digits Y), int (nat_of_digits M), int (nat_of_digits D))"
    using py(2-4) pm(2-4) pd(2-4) by (intro parse_ymd_digits) simp_all
  then have p: "parse_ymd (qt_to_string (y, m, d)) = Inr (y, m, d)"
    using b by (simp add: s vy vm vd)
  have "c_int_ok y" "c_int_ok m" "c_int_ok d"
    using b by (simp_all add: c_int_ok_def)
  then have "QDate y m d = Inr (Some (y, m, d))"
    using assms(3) by (simp add: QDate_def)
  with p show "str_to_qdate (qt_to_string (y, m, d)) = Some (y, m, d)"
    by (simp add: str_to_qdate_def ebind_def)
  from py(3) show "qt_to_string (y, m, d) \<noteq> []"
    by (simp add: s)
qed

lemma dt_set_date_in_range:
  "DT_MIN \<le> t \<Longrightarrow> t \<le> DT_MAX \<Longrightarrow> dt_set_date (Some t) cur = t"
  by (simp add: dt_set_date_def min_absorb2 max_absorb2)

lemma or_str_Some: "or_str (Some s) [] = s"
  by (simp add: or_str_def)

lemma spin_or_int: "0 \<le> a \<Longrightarrow> a \<le> hi \<Longrightarrow> spin_set 0 hi (or_int (Some a) 0) = a"
  by (simp add: spin_set_def or_int_def)

lemma truthy_int_bool: "truthy_int (Some (if b then 1 else 0)) = b"
  by (simp add: truthy_int_def)

text \<open>
  Loading the row that the form's own values make gives a form with the same values.
\<close>

lemma load_row_form_values:
  assumes "form_ok f" "p \<noteq> 0" "find_text (py_str_int p) PLAN_ITEMS = Some (cb_plan f)"
  shows "form_values p (load_row ((form_values p f)\<lparr>c_id := cid\<rparr>) L f0) = form_values p f"
    and "cb_plan (load_row ((form_values p f)\<lparr>c_id := cid\<rparr>) L f0) = cb_plan f"
    and "list_next (load_row ((form_values p f)\<lparr>c_id := cid\<rparr>) L f0) = L"
proof -
  obtain y m d where t: "dt_first f = (y, m, d)" by (cases "dt_first f") auto
  from assms(1) have ok: "0 \<le> ed_age f" "ed_age f \<le> 120" "0 \<le> sp_paid f" "sp_paid f \<le> 12"
    "qt_valid (y, m, d)" "DT_MIN \<le> (y, m, d)" "(y, m, d) \<le> DT_MAX"
    by (simp_all add: form_ok_def t)
  note rt = str_to_qdate_qt_to_string [OF ok(6,7,5)]
  have dt: "dt_set_date (str_to_qdate (qdate_to_str (Some (dt_first f)))) (dt_first f0) = dt_first f"
    by (simp add: qdate_to_str_def t rt dt_set_date_in_range [OF ok(6,7)])
  have cb: "combo_set_current_text (py_str_int (or_int (Some p) 2)) (cb_plan f0) = cb_plan f"
    using assms(2,3) by (simp add: combo_set_current_text_def or_int_def)
  show "form_values p (load_row ((form_values p f)\<lparr>c_id := cid\<rparr>) L f0) = form_values p f"
    by (simp add: form_values_def load_row_def dt cb or_str_Some py_strip_idem
        spin_or_int ok truthy_int_bool)
  show "cb_plan (load_row ((form_values p f)\<lparr>c_id := cid\<rparr>) L f0) = cb_plan f"
    by (simp add: form_values_def load_row_def cb)
  show "list_next (load_row ((form_values p f)\<lparr>c_id := cid\<rparr>) L f0) = L"
    by (simp add: load_row_def)
qed

lemma insert_client_result:
  "insert_client r db =
     (new_rowid (map c_id (clients db)) (seq_clients db),
      db\<lparr>clients := clients db @ [r\<lparr>c_id := new_rowid (map c_id (clients db)) (seq_clients db)\<rparr>],
         seq_clients := nat (new_rowid (map c_id (clients db)) (seq_clients db))\<rparr>)"
proof -
  let ?i = "new_rowid (map c_id (clients db)) (seq_clients db)"
  have "\<forall>y \<in> set (clients db). c_id y < c_id (r\<lparr>c_id := ?i\<rparr>)"
    by (simp add: new_rowid_gt)
  then have "insort_key c_id (r\<lparr>c_id := ?i\<rparr>) (clients db) = clients db @ [r\<lparr>c_id := ?i\<rparr>]"
    by (rule insort_key_last)
  then show ?thesis by (simp add: insert_client_def Let_def)
qed

lemma find_last: "\<forall>y \<in> set xs. \<not> P y \<Longrightarrow> P x \<Longrightarrow> find P (xs @ [x]) = Some x"
  by (induction xs) auto

lemma save_client_result:
  assumes "py_strip (ed_name (app_form st)) \<noteq> []"
    "int_of_str (combo_current_text (cb_plan (app_form st))) = Inr p"
  shows "save_client today st =
     Inr (show_dialog msg_salvo (load_table (st\<lparr>app_db :=
        insert_next_dates (fst (insert_client (form_values p (app_form st)) (app_db st)))
          (list_next (app_form st))
          (snd (insert_client (form_values p (app_form st)) (app_db st))),
        app_form := clear_form today (app_form st)\<rparr>)))"
  using assms by (simp add: save_client_def ebind_def Let_def split_beta)

lemma clients_delete_scheduled [simp]: "clients (delete_scheduled cid db) = clients db"
  by (simp add: delete_scheduled_def)

lemma scheduled_dates_sorted: "sort (scheduled_dates db cid) = scheduled_dates db cid"
  by (simp add: scheduled_dates_def sorted_sort_id)

text \<open>
  Deleting a client's scheduled rows and inserting a list of dates leaves exactly that
  list as the client's scheduled dates.
\<close>

lemma scheduled_after_replace:
  "map a_date (filter (is_scheduled_of cid)
       (appointments (insert_next_dates cid ds (delete_scheduled cid db)))) = ds"
proof -
  define db2 where "db2 = delete_scheduled cid db"
  from insert_next_dates_appends [of cid ds db2] obtain news where
    n: "appointments (insert_next_dates cid ds db2) = appointments db2 @ news \<and>
     map a_date news = ds \<and>
     list_all (\<lambda>a. a_client_id a = cid \<and> a_kind a = Some KIND_RETORNO \<and>
        a_status a = Some STATUS_AGENDADO \<and> a_id a \<notin> a_id ` set (appointments db2)) news \<and>
     distinct (map a_id news)" ..
  note n1 = n [THEN conjunct1]
  note n2 = n [THEN conjunct2, THEN conjunct1]
  note n3 = n [THEN conjunct2, THEN conjunct2, THEN conjunct1]
  have k: "filter (is_scheduled_of cid) (appointments db2) = []"
    by (simp add: db2_def delete_scheduled_def)
  have "is_scheduled_of cid a" if "a \<in> set news" for a
    using n3 [unfolded list_all_iff, THEN bspec, OF that] by (simp add: is_scheduled_of_def)
  then have w: "filter (is_scheduled_of cid) news = news"
    by (simp add: filter_id_conv)
  have f: "filter (is_scheduled_of cid) (appointments (insert_next_dates cid ds db2)) = news"
    by (simp add: n1 k w)
  show ?thesis
    using f n2 by (simp add: db2_def)
qed

text \<open>
  Claim C3. From a form that satisfies the widget invariants and has a non-empty name,
  \<open>save_client\<close> succeeds and creates a client under a new id; the table then has a row
  for that id; selecting and double-clicking it loads the client into the form; and
  \<open>update_selected\<close> on the form as loaded succeeds and leaves the clients table, and
  with it the stored row, as it was, and the client's scheduled dates and their number
  as they were.
\<close>

theorem save_load_update_unchanged:
  assumes "form_ok (app_form st0)" and "py_strip (ed_name (app_form st0)) \<noteq> []"
  shows "\<exists>st1 cid i st3.
     save_client today st0 = Inr st1 \<and>
     cid \<notin> c_id ` set (clients (app_db st0)) \<and>
     cid \<in> c_id ` set (clients (app_db st1)) \<and>
     map_option fst (get_row (model_rows st1) i) = Some cid \<and>
     update_selected (table_double_clicked i (set_current_index i st1)) = Inr st3 \<and>
     clients (app_db st3) = clients (app_db st1) \<and>
     scheduled_dates (app_db st3) cid = scheduled_dates (app_db st1) cid \<and>
     length (filter (is_scheduled_of cid) (appointments (app_db st3))) =
       length (filter (is_scheduled_of cid) (appointments (app_db st1)))"
proof -
  define f where "f = app_form st0"
  define db0 where "db0 = app_db st0"
  from assms(1) have "cb_plan f < length PLAN_ITEMS" by (simp add: form_ok_def f_def)
  from plan_items_int [OF this] obtain p where
    p: "int_of_str (combo_current_text (cb_plan f)) = Inr p" "p \<noteq> 0"
      "find_text (py_str_int p) PLAN_ITEMS = Some (cb_plan f)" by blast
  define cid where "cid = new_rowid (map c_id (clients db0)) (seq_clients db0)"
  define row where "row = (form_values p f)\<lparr>c_id := cid\<rparr>"
  define db1 where "db1 = db0\<lparr>clients := clients db0 @ [row], seq_clients := nat cid\<rparr>"
  define db2 where "db2 = insert_next_dates cid (list_next f) db1"
  define st1 where "st1 = show_dialog msg_salvo (load_table (st0\<lparr>app_db := db2,
      app_form := clear_form today f\<rparr>))"
  have ic: "insert_client (form_values p f) db0 = (cid, db1)"
    by (simp add: insert_client_result cid_def db1_def row_def)
  have s1: "save_client today st0 = Inr st1"
    using save_client_result [of st0 p today] assms(2) p(1)
    by (simp add: f_def [symmetric] db0_def [symmetric] ic st1_def db2_def)
  have fresh: "cid \<notin> c_id ` set (clients db0)"
  proof
    assume "cid \<in> c_id ` set (clients db0)"
    then have "cid \<in> set (map c_id (clients db0))" by simp
    then have "cid < cid" unfolding cid_def by (rule new_rowid_gt)
    then show False by simp
  qed
  have nz: "cid \<noteq> 0" using new_rowid_pos [of "map c_id (clients db0)" "seq_clients db0"]
    by (simp add: cid_def)
  have rid: "c_id row = cid" by (simp add: row_def)
  have c2: "clients db2 = clients db0 @ [row]" by (simp add: db2_def db1_def)
  have d1: "app_db st1 = db2" by (simp add: st1_def)
  have m1: "model_rows st1 = map table_row_of (clients_by_hidden_name db2)"
    by (simp add: st1_def show_dialog_def load_table_def)
  have f1: "app_form st1 = clear_form today f"
    by (simp add: st1_def show_dialog_def load_table_def)
  have "row \<in> set (clients_by_hidden_name db2)"
    by (simp add: clients_by_hidden_name_def c2)
  then have "table_row_of row \<in> set (model_rows st1)" by (simp add: m1)
  then obtain i where i: "i < length (model_rows st1)" "model_rows st1 ! i = table_row_of row"
    by (auto simp: in_set_conv_nth)
  have g1: "get_row (model_rows st1) i = Some (table_row_of row)"
    using i by (simp add: get_row_def)
  have fr: "fst (table_row_of row) = cid" by (simp add: table_row_of_def rid)
  define sti where "sti = set_current_index i st1"
  have others: "c_id y \<noteq> cid" if "y \<in> set (clients db0)" for y
  proof
    assume "c_id y = cid"
    with that have "cid \<in> c_id ` set (clients db0)" by (metis imageI)
    with fresh show False by simp
  qed
  have fi: "find (\<lambda>c. c_id c = cid) (clients db2) = Some row"
    unfolding c2 using others rid by (intro find_last) simp_all
  define g where "g = load_row row (scheduled_dates db2 cid) (clear_form today f)"
  define st2 where "st2 = sti\<lparr>app_form := g\<rparr>"
  have dc: "table_double_clicked i sti = st2"
    by (simp add: table_double_clicked_def sti_def set_current_index_def g1 fr
        fill_form_from_db_def d1 fi f1 st2_def g_def)
  have sel: "current_selected_client_id st2 = Some cid"
    by (simp add: current_selected_client_id_def st2_def sti_def set_current_index_def g1 fr)
  have fok: "form_ok f" using assms(1) by (simp add: f_def)
  have lr: "form_values p g = form_values p f" "cb_plan g = cb_plan f"
    "list_next g = scheduled_dates db2 cid"
    unfolding g_def row_def by (rule load_row_form_values [OF fok p(2,3)])+
  have f2: "app_form st2 = g" and d2: "app_db st2 = db2"
    by (simp_all add: st2_def sti_def set_current_index_def d1)
  have pg: "int_of_str (combo_current_text (cb_plan (app_form st2))) = Inr p"
    by (simp add: f2 lr(2) p(1))
  define db3 where "db3 = insert_next_dates cid (list_next g)
      (delete_scheduled cid (update_client cid (form_values p g) db2))"
  define st3 where "st3 = show_dialog msg_atualizado (load_table (st2\<lparr>app_db := db3\<rparr>))"
  have u: "update_selected st2 = Inr st3"
    using update_selected_result [OF sel nz pg] by (simp add: st3_def db3_def f2 d2)
  have d3: "app_db st3 = db3" by (simp add: st3_def)
  have same: "(if c_id c = cid then (form_values p f)\<lparr>c_id := cid\<rparr> else c) = c"
    if "c \<in> set (clients db0 @ [row])" for c
    using that others by (auto simp: row_def)
  have "clients db3 = map (\<lambda>c. if c_id c = cid then (form_values p f)\<lparr>c_id := cid\<rparr> else c)
      (clients db0 @ [row])"
    by (simp add: db3_def update_client_def lr(1) c2)
  also have "\<dots> = clients db0 @ [row]"
    using same by (intro map_idI)
  finally have c3: "clients db3 = clients db2" by (simp add: c2)
  have ap: "appointments (update_client cid (form_values p g) db2) = appointments db2"
    by simp
  have md: "map a_date (filter (is_scheduled_of cid) (appointments db3)) = scheduled_dates db2 cid"
    unfolding db3_def by (simp add: scheduled_after_replace lr(3))
  then have sd: "scheduled_dates db3 cid = scheduled_dates db2 cid"
    by (simp add: scheduled_dates_def [of db3] scheduled_dates_sorted)
  from md have "length (map a_date (filter (is_scheduled_of cid) (appointments db3))) =
      length (scheduled_dates db2 cid)" by simp
  then have ln: "length (filter (is_scheduled_of cid) (appointments db3)) =
      length (filter (is_scheduled_of cid) (appointments db2))"
    by (simp add: scheduled_dates_def)
  have in1: "cid \<in> c_id ` set (clients db2)"
    using rid by (auto simp: c2)
  have go: "map_option fst (get_row (model_rows st1) i) = Some cid"
    by (simp add: g1 fr)
  have u': "update_selected (table_double_clicked i (set_current_index i st1)) = Inr st3"
    using u dc by (simp add: sti_def)
  show ?thesis
    apply (rule exI [of _ st1], rule exI [of _ cid], rule exI [of _ i], rule exI [of _ st3])
    apply (simp only: d1 d3 db0_def [symmetric])
    apply (intro conjI s1 fresh in1 go u' c3 sd ln)
    done
qed

theorem save_load_update_unchanged_witness:
  "form_ok (app_form (app_of db_two form_ana)) \<and>
   py_strip (ed_name (app_form (app_of db_two form_ana))) \<noteq> [] \<and>
   (\<exists>st1 cid i st3.
     save_client (2024, 6, 1) (app_of db_two form_ana) = Inr st1 \<and>
     cid \<notin> c_id ` set (clients (app_db (app_of db_two form_ana))) \<and>
     cid \<in> c_id ` set (clients (app_db st1)) \<and>
     map_option fst (get_row (model_rows st1) i) = Some cid \<and>
     update_selected (table_double_clicked i (set_current_index i st1)) = Inr st3 \<and>
     clients (app_db st3) = clients (app_db st1) \<and>
     scheduled_dates (app_db st3) cid = scheduled_dates (app_db st1) cid \<and>
     length (filter (is_scheduled_of cid) (appointments (app_db st3))) =
       length (filter (is_scheduled_of cid) (appointments (app_db st1))))"
proof -
  have h1: "form_ok (app_form (app_of db_two form_ana))"
    by (simp add: app_of_def form_ana_def form_ok_def PLAN_ITEMS_def qt_valid_def
        qt_days_in_month_def DT_MIN_def DT_MAX_def)
  have h2: "py_strip (ed_name (app_form (app_of db_two form_ana))) \<noteq> []"
    by (simp add: app_of_def form_ana_def py_strip_def py_isspace_def)
  from save_load_update_unchanged [OF h1 h2, of "(2024, 6, 1)"] h1 h2 show ?thesis
    by (intro conjI)
qed

subsection \<open>The weekly digest\<close>

lemma next_day_greater: "next_day t = Inr t' \<Longrightarrow> t < t'"
  by (cases t) (auto simp: next_day_def split: if_splits)

lemma date_add_days_mono: "date_add_days t n = Inr t' \<Longrightarrow> t \<le> t'"
proof (induction n arbitrary: t)
  case 0
  then show ?case by simp
next
  case (Suc n)
  then obtain u where u: "next_day t = Inr u" "date_add_days u n = Inr t'"
    by (auto split: sum.splits)
  from next_day_greater [OF u(1)] Suc.IH [OF u(2)] show ?case by simp
qed

lemma week_step_window:
  "week_step today limit s acc =
     acc @ (if in_week_window today limit s then [human_date s] else [])"
  by (cases "appt_date s") (simp_all add: week_step_def in_week_window_def)

lemma week_fold:
  "fold (week_step today limit) ds acc =
     acc @ map human_date (filter (in_week_window today limit) ds)"
  by (induction ds arbitrary: acc) (simp_all add: week_step_window)

lemma appts_in_week_filter:
  "appts_in_week today limit ds = map human_date (filter (in_week_window today limit) ds)"
  by (simp add: appts_in_week_def week_fold)

lemma digest_fold:
  "fold (digest_step today limit db) cs acc =
     acc @ concat (map (\<lambda>c. digest_step today limit db c []) cs)"
proof (induction cs arbitrary: acc)
  case Nil
  show ?case by simp
next
  case (Cons c cs)
  have "digest_step today limit db c acc = acc @ digest_step today limit db c []"
    by (simp add: digest_step_def Let_def)
  then show ?case by (simp add: Cons.IH)
qed

lemma week_lines_concat:
  "week_lines today limit db =
     WEEK_HEADER # concat (map (\<lambda>c. digest_step today limit db c []) (visible_clients_by_name db))"
  by (simp add: week_lines_def digest_fold)

lemma visible_clients_set:
  "set (visible_clients_by_name db) = {c \<in> set (clients db). c_hidden c = Some 0}"
  by (simp add: visible_clients_by_name_def)

lemma scheduled_dates_set:
  "set (scheduled_dates db cid) = a_date ` {a \<in> set (appointments db). is_scheduled_of cid a}"
  by (simp add: scheduled_dates_def)

lemma compose_week_message_result:
  "date_add_days today 7 = Inr limit \<Longrightarrow>
   compose_week_message today db =
     Inr (py_join [CHR 0x0A]
       (if length (week_lines today limit db) = 1 then week_lines today limit db @ [WEEK_EMPTY]
        else week_lines today limit db))"
  by (simp add: compose_week_message_def ebind_def Let_def)

lemma digest_block_present:
  assumes "c \<in> set (clients db)" "c_hidden c = Some 0"
    "appts_in_week today limit (scheduled_dates db (c_id c)) \<noteq> []"
  shows "\<exists>pre post. week_lines today limit db =
     pre @ digest_block c (appts_in_week today limit (scheduled_dates db (c_id c))) @ post"
proof -
  from assms(1,2) have "c \<in> set (visible_clients_by_name db)"
    by (simp add: visible_clients_set)
  then obtain xs ys where s: "visible_clients_by_name db = xs @ c # ys"
    by (auto simp: in_set_conv_decomp)
  have b: "digest_step today limit db c [] =
      digest_block c (appts_in_week today limit (scheduled_dates db (c_id c)))"
    using assms(3) by (simp add: digest_step_def Let_def)
  have "week_lines today limit db =
      (WEEK_HEADER # concat (map (\<lambda>c. digest_step today limit db c []) xs)) @
      digest_block c (appts_in_week today limit (scheduled_dates db (c_id c))) @
      concat (map (\<lambda>c. digest_step today limit db c []) ys)"
    by (simp add: week_lines_concat s b)
  then show ?thesis by blast
qed

lemma py_join_cons: "py_join sep (x # xs) = x @ concat (map ((@) sep) xs)"
  by (induction xs arbitrary: x) simp_all

lemma py_join_drop: "py_join sep xs = drop (length sep) (concat (map ((@) sep) xs))"
  by (cases xs) (simp_all add: py_join_cons)

lemma py_join_mem: "x \<in> set xs \<Longrightarrow> \<exists>l r. py_join sep xs = l @ x @ r"
proof -
  assume "x \<in> set xs"
  then obtain us vs where xs: "xs = us @ x # vs" by (auto simp: in_set_conv_decomp)
  show ?thesis
  proof (cases us)
    case Nil
    have "py_join sep xs = [] @ x @ concat (map ((@) sep) vs)"
      by (simp add: py_join_cons xs Nil)
    then show ?thesis by (intro exI)
  next
    case (Cons u ws)
    have "py_join sep xs =
        (u @ concat (map ((@) sep) ws) @ sep) @ x @ concat (map ((@) sep) vs)"
      by (simp add: py_join_cons xs Cons)
    then show ?thesis by (intro exI)
  qed
qed

text \<open>The message when a visible client has an appointment in the window.\<close>

lemma compose_block:
  assumes "date_add_days today 7 = Inr limit" "c \<in> set (visible_clients_by_name db)"
    "appts_in_week today limit (scheduled_dates db (c_id c)) \<noteq> []"
  shows "\<exists>P Q. compose_week_message today db =
     Inr (WEEK_HEADER @ P @
       concat (map ((@) [CHR 0x0A])
         (digest_block c (appts_in_week today limit (scheduled_dates db (c_id c))))) @ Q)"
proof -
  define W where "W = appts_in_week today limit (scheduled_dates db (c_id c))"
  from assms(2) obtain xs ys where s: "visible_clients_by_name db = xs @ c # ys"
    by (auto simp: in_set_conv_decomp)
  have b: "digest_step today limit db c [] = digest_block c W"
    using assms(3) by (simp add: digest_step_def Let_def W_def)
  define A where "A = concat (map (\<lambda>c. digest_step today limit db c []) xs)"
  define B where "B = concat (map (\<lambda>c. digest_step today limit db c []) ys)"
  have l: "week_lines today limit db = WEEK_HEADER # A @ digest_block c W @ B"
    by (simp add: week_lines_concat s b A_def B_def)
  have n: "length (week_lines today limit db) \<noteq> 1"
    by (simp add: l digest_block_def)
  have "compose_week_message today db =
      Inr (WEEK_HEADER @ concat (map ((@) [CHR 0x0A]) A) @
        concat (map ((@) [CHR 0x0A]) (digest_block c W)) @ concat (map ((@) [CHR 0x0A]) B))"
    unfolding compose_week_message_result [OF assms(1)] using n
    by (simp add: l py_join_cons)
  then show ?thesis unfolding W_def by blast
qed

text \<open>The message when no visible client has one.\<close>

lemma compose_empty:
  assumes "date_add_days today 7 = Inr limit"
    "\<forall>c \<in> set (visible_clients_by_name db).
       appts_in_week today limit (scheduled_dates db (c_id c)) = []"
  shows "compose_week_message today db = Inr (WEEK_HEADER @ CHR 0x0A # WEEK_EMPTY)"
proof -
  have "concat (map (\<lambda>c. digest_step today limit db c []) cs) = []"
    if "\<forall>c \<in> set cs. appts_in_week today limit (scheduled_dates db (c_id c)) = []" for cs
    using that by (induction cs) (simp_all add: digest_step_def)
  from this [OF assms(2)] have "week_lines today limit db = [WEEK_HEADER]"
    by (simp add: week_lines_concat)
  then show ?thesis
    by (simp add: compose_week_message_result [OF assms(1)])
qed

lemma compose_header:
  assumes "date_add_days today 7 = Inr limit"
  shows "\<exists>rest. compose_week_message today db = Inr (WEEK_HEADER @ CHR 0x0A # rest)"
proof (cases "week_lines today limit db = [WEEK_HEADER]")
  case True
  then show ?thesis by (simp add: compose_week_message_result [OF assms])
next
  case False
  then obtain x xs where l: "week_lines today limit db = WEEK_HEADER # x # xs"
    unfolding week_lines_concat
    by (cases "concat (map (\<lambda>c. digest_step today limit db c []) (visible_clients_by_name db))")
      auto
  show ?thesis
    by (simp add: compose_week_message_result [OF assms] l py_join_cons)
qed

lemma next_day_valid: "valid_date t \<Longrightarrow> next_day t = Inr t' \<Longrightarrow> valid_date t'"
  by (cases t) (auto simp: next_day_def valid_date_def days_in_month_def split: if_splits)

text \<open>A date string as the application writes it stands for its date.\<close>

lemma appt_date_qt_to_string:
  assumes "valid_date (y, m, d)"
  shows "appt_date (qt_to_string (y, m, d)) = Inr (y, m, d)"
proof -
  from assms have b: "1 \<le> y" "y \<le> 9999" "1 \<le> m" "m \<le> 12" "1 \<le> d" "d \<le> 31"
    by (auto simp: valid_date_def days_in_month_def split: if_splits)
  define Y where "Y = zero_pad 4 (digits_of_nat (nat \<bar>y\<bar>))"
  define M where "M = zero_pad 2 (digits_of_nat (nat m))"
  define D where "D = zero_pad 2 (digits_of_nat (nat d))"
  have ny: "nat \<bar>y\<bar> < 10 ^ 4" and nm: "nat m < 10 ^ 2" and nd: "nat d < 10 ^ 2"
    using b by simp_all
  note py = py_int_zero_pad [OF ny, folded Y_def]
  note pm = py_int_zero_pad [OF nm, folded M_def]
  note pd = py_int_zero_pad [OF nd, folded D_def]
  have vy: "nat_of_digits Y = nat \<bar>y\<bar>" and vm: "nat_of_digits M = nat m"
    and vd: "nat_of_digits D = nat d"
    by (simp_all add: Y_def M_def D_def zero_pad_def nat_of_digits_zeros nat_of_digits_digits_of_nat)
  have s: "qt_to_string (y, m, d) = Y @ ''-'' @ M @ ''-'' @ D"
    using b by (simp add: qt_to_string_def Y_def M_def D_def)
  have "parse_ymd (Y @ ''-'' @ M @ ''-'' @ D) =
      Inr (int (nat_of_digits Y), int (nat_of_digits M), int (nat_of_digits D))"
    using py(2-4) pm(2-4) pd(2-4) by (intro parse_ymd_digits) simp_all
  then have p: "parse_ymd (qt_to_string (y, m, d)) = Inr (y, m, d)"
    using b by (simp add: s vy vm vd)
  have "c_int_ok y" "c_int_ok m" "c_int_ok d"
    using b by (simp_all add: c_int_ok_def)
  with p assms show ?thesis by (simp add: appt_date_def ebind_def py_date_def)
qed

text \<open>
  Claim C4. Let the limit be today plus seven days. \<open>compose_week_message\<close> returns a
  message that starts with the header line, and that is the header and the line for an empty
  week when no client with \<open>hidden = 0\<close> has a scheduled date in the window. For a client
  with \<open>hidden = 0\<close> and a scheduled appointment whose date string is in the window, the
  message holds the client's name line and, further down the same block, the line of the
  coming dates: the renderings, separated by a comma and a space, of exactly those scheduled
  date strings of the client that are in the window, the appointment's among them. A string
  is in the window when it stands for a date from today to the limit: one that stands for
  today or for the limit is, one that stands for the day before today or for the day after
  the limit is not, and one that raises in the \<open>try\<close> body is not, without an error of
  \<open>compose_week_message\<close>. The date strings that the application writes stand for their
  dates.
\<close>

theorem week_window_inclusive:
  assumes "date_add_days today 7 = Inr limit"
  shows "(\<exists>rest. compose_week_message today db = Inr (WEEK_HEADER @ CHR 0x0A # rest)) \<and>
    ((\<forall>c \<in> set (clients db). c_hidden c = Some 0 \<longrightarrow>
        filter (in_week_window today limit) (scheduled_dates db (c_id c)) = []) \<longrightarrow>
       compose_week_message today db = Inr (WEEK_HEADER @ CHR 0x0A # WEEK_EMPTY)) \<and>
    (c \<in> set (clients db) \<and> c_hidden c = Some 0 \<and> a \<in> set (appointments db) \<and>
     a_client_id a = c_id c \<and> a_status a = Some STATUS_AGENDADO \<and>
     in_week_window today limit (a_date a) \<longrightarrow>
       (\<exists>pre mid post l r.
          compose_week_message today db =
            Inr (WEEK_HEADER @ pre @ CHR 0x0A # ''Nome: '' @ c_name c @ CHR 0x0A # mid @
              CHR 0x0A # ''Pr'' @ [CHR 0xF3] @ ''ximas (7 dias): '' @
              drop 2 (concat (map ((@) '', '') (map human_date
                (filter (in_week_window today limit) (scheduled_dates db (c_id c)))))) @
              CHR 0x0A # post) \<and>
          drop 2 (concat (map ((@) '', '') (map human_date
            (filter (in_week_window today limit) (scheduled_dates db (c_id c)))))) =
            l @ human_date (a_date a) @ r)) \<and>
    (appt_date s = Inr today \<or> appt_date s = Inr limit \<longrightarrow> in_week_window today limit s) \<and>
    (appt_date s = Inr d \<and> (next_day d = Inr today \<or> next_day limit = Inr d) \<longrightarrow>
       \<not> in_week_window today limit s) \<and>
    (appt_date s = Inl e \<longrightarrow> \<not> in_week_window today limit s) \<and>
    (valid_date t \<longrightarrow> appt_date (qt_to_string t) = Inr t)"
proof -
  have tl: "today \<le> limit" using assms by (rule date_add_days_mono)
  have p1: "\<exists>rest. compose_week_message today db = Inr (WEEK_HEADER @ CHR 0x0A # rest)"
    using assms by (rule compose_header)
  have p2: "(\<forall>c \<in> set (clients db). c_hidden c = Some 0 \<longrightarrow>
        filter (in_week_window today limit) (scheduled_dates db (c_id c)) = []) \<longrightarrow>
       compose_week_message today db = Inr (WEEK_HEADER @ CHR 0x0A # WEEK_EMPTY)"
  proof
    assume "\<forall>c \<in> set (clients db). c_hidden c = Some 0 \<longrightarrow>
        filter (in_week_window today limit) (scheduled_dates db (c_id c)) = []"
    then have "\<forall>c \<in> set (visible_clients_by_name db).
        appts_in_week today limit (scheduled_dates db (c_id c)) = []"
      by (simp add: visible_clients_set appts_in_week_filter)
    with assms show "compose_week_message today db = Inr (WEEK_HEADER @ CHR 0x0A # WEEK_EMPTY)"
      by (rule compose_empty)
  qed
  have p3: "c \<in> set (clients db) \<and> c_hidden c = Some 0 \<and> a \<in> set (appointments db) \<and>
     a_client_id a = c_id c \<and> a_status a = Some STATUS_AGENDADO \<and>
     in_week_window today limit (a_date a) \<longrightarrow>
       (\<exists>pre mid post l r.
          compose_week_message today db =
            Inr (WEEK_HEADER @ pre @ CHR 0x0A # ''Nome: '' @ c_name c @ CHR 0x0A # mid @
              CHR 0x0A # ''Pr'' @ [CHR 0xF3] @ ''ximas (7 dias): '' @
              drop 2 (concat (map ((@) '', '') (map human_date
                (filter (in_week_window today limit) (scheduled_dates db (c_id c)))))) @
              CHR 0x0A # post) \<and>
          drop 2 (concat (map ((@) '', '') (map human_date
            (filter (in_week_window today limit) (scheduled_dates db (c_id c)))))) =
            l @ human_date (a_date a) @ r)"
  proof (intro impI, elim conjE)
    assume h: "c \<in> set (clients db)" "c_hidden c = Some 0" "a \<in> set (appointments db)"
      "a_client_id a = c_id c" "a_status a = Some STATUS_AGENDADO"
      "in_week_window today limit (a_date a)"
    define W where "W = appts_in_week today limit (scheduled_dates db (c_id c))"
    define DD where "DD = drop 2 (concat (map ((@) '', '') (map human_date
            (filter (in_week_window today limit) (scheduled_dates db (c_id c))))))"
    have two: "length '', '' = 2" by simp
    have j: "py_join '', '' W = DD"
      unfolding W_def DD_def appts_in_week_filter py_join_drop two ..
    from h(3,4,5) have "a_date a \<in> set (scheduled_dates db (c_id c))"
      by (simp add: scheduled_dates_set is_scheduled_of_def)
    with h(6) have m: "human_date (a_date a) \<in> set W"
      by (simp add: W_def appts_in_week_filter)
    then have ne: "W \<noteq> []" by auto
    from py_join_mem [OF m, of "'', ''"] obtain l r where
      lr: "DD = l @ human_date (a_date a) @ r" unfolding j by blast
    from h(1,2) have v: "c \<in> set (visible_clients_by_name db)"
      by (simp add: visible_clients_set)
    from compose_block [OF assms v ne [unfolded W_def]] obtain P Q where
      pq: "compose_week_message today db =
        Inr (WEEK_HEADER @ P @ concat (map ((@) [CHR 0x0A]) (digest_block c W)) @ Q)"
      unfolding W_def by blast
    define mid where "mid = ''Idade: '' @ str_int_or (c_age c) ''-'' @ CHR 0x0A #
        ''WhatsApp: '' @ or_str (c_whatsapp c) ''-'' @ CHR 0x0A #
        ''Primeira consulta: '' @
         (if or_str (c_first_consult c) [] \<noteq> [] then human_date (or_str (c_first_consult c) [])
          else ''-'')"
    define post where "post = ''Plano: '' @ py_str_opt_int (c_plan_months c) @
        '' meses | Retornos pagos: '' @ py_str_opt_int (c_paid_returns c) @ CHR 0x0A #
        ''Obs: '' @ or_str (c_notes c) ''-'' @ CHR 0x0A # ''[ ------------------------- ]'' @ Q"
    have "compose_week_message today db =
        Inr (WEEK_HEADER @ (P @ [CHR 0x0A]) @ CHR 0x0A # ''Nome: '' @ c_name c @ CHR 0x0A # mid @
          CHR 0x0A # ''Pr'' @ [CHR 0xF3] @ ''ximas (7 dias): '' @ DD @ CHR 0x0A # post)"
      unfolding pq by (simp add: digest_block_def j mid_def post_def)
    with lr show "\<exists>pre mid post l r.
          compose_week_message today db =
            Inr (WEEK_HEADER @ pre @ CHR 0x0A # ''Nome: '' @ c_name c @ CHR 0x0A # mid @
              CHR 0x0A # ''Pr'' @ [CHR 0xF3] @ ''ximas (7 dias): '' @
              drop 2 (concat (map ((@) '', '') (map human_date
                (filter (in_week_window today limit) (scheduled_dates db (c_id c)))))) @
              CHR 0x0A # post) \<and>
          drop 2 (concat (map ((@) '', '') (map human_date
            (filter (in_week_window today limit) (scheduled_dates db (c_id c)))))) =
            l @ human_date (a_date a) @ r"
      unfolding DD_def by blast
  qed
  have p4: "appt_date s = Inr today \<or> appt_date s = Inr limit \<longrightarrow> in_week_window today limit s"
    using tl by (auto simp: in_week_window_def)
  have p5: "appt_date s = Inr d \<and> (next_day d = Inr today \<or> next_day limit = Inr d) \<longrightarrow>
       \<not> in_week_window today limit s"
  proof (intro impI, elim conjE)
    assume s: "appt_date s = Inr d" and n: "next_day d = Inr today \<or> next_day limit = Inr d"
    from n have "d < today \<or> limit < d" using next_day_greater by blast
    then have "\<not> (today \<le> d \<and> d \<le> limit)" by auto
    with s show "\<not> in_week_window today limit s" by (simp add: in_week_window_def)
  qed
  have p6: "appt_date s = Inl e \<longrightarrow> \<not> in_week_window today limit s"
    by (simp add: in_week_window_def)
  have p7: "valid_date t \<longrightarrow> appt_date (qt_to_string t) = Inr t"
    by (cases t) (simp add: appt_date_qt_to_string)
  from p1 p2 p3 p4 p5 p6 p7 show ?thesis by (intro conjI)
qed

theorem week_window_inclusive_witness:
  "date_add_days (2024, 6, 1) 7 = Inr (2024, 6, 8) \<and>
   (\<exists>rest. compose_week_message (2024, 6, 1) db_two = Inr (WEEK_HEADER @ CHR 0x0A # rest)) \<and>
   date_add_days (2024, 7, 1) 7 = Inr (2024, 7, 8) \<and>
   clients db_two = [client_bea, client_caio] \<and> c_hidden client_caio = Some 1 \<and>
   filter (in_week_window (2024, 7, 1) (2024, 7, 8)) (scheduled_dates db_two (c_id client_bea)) =
     [] \<and>
   compose_week_message (2024, 7, 1) db_two = Inr (WEEK_HEADER @ CHR 0x0A # WEEK_EMPTY) \<and>
   client_bea \<in> set (clients db_two) \<and> c_hidden client_bea = Some 0 \<and>
   appt_bea \<in> set (appointments db_two) \<and> a_client_id appt_bea = c_id client_bea \<and>
   a_status appt_bea = Some STATUS_AGENDADO \<and>
   in_week_window (2024, 6, 1) (2024, 6, 8) (a_date appt_bea) \<and>
   (\<exists>pre mid post l r.
      compose_week_message (2024, 6, 1) db_two =
        Inr (WEEK_HEADER @ pre @ CHR 0x0A # ''Nome: '' @ c_name client_bea @ CHR 0x0A # mid @
          CHR 0x0A # ''Pr'' @ [CHR 0xF3] @ ''ximas (7 dias): '' @
          drop 2 (concat (map ((@) '', '') (map human_date
            (filter (in_week_window (2024, 6, 1) (2024, 6, 8))
               (scheduled_dates db_two (c_id client_bea)))))) @
          CHR 0x0A # post) \<and>
      drop 2 (concat (map ((@) '', '') (map human_date
        (filter (in_week_window (2024, 6, 1) (2024, 6, 8))
           (scheduled_dates db_two (c_id client_bea)))))) =
        l @ human_date (a_date appt_bea) @ r) \<and>
   in_week_window (2024, 6, 1) (2024, 6, 8) ''2024-06-01'' \<and>
   in_week_window (2024, 6, 1) (2024, 6, 8) ''2024-06-08'' \<and>
   \<not> in_week_window (2024, 6, 1) (2024, 6, 8) ''2024-05-31'' \<and>
   \<not> in_week_window (2024, 6, 1) (2024, 6, 8) ''2024-06-09'' \<and>
   \<not> in_week_window (2024, 6, 1) (2024, 6, 8) ''amanha'' \<and>
   \<not> in_week_window (2024, 6, 1) (2024, 6, 8) (CHR 0x1F # ''2024-06-04'') \<and>
   valid_date (2024, 6, 8) \<and> appt_date (qt_to_string (2024, 6, 8)) = Inr (2024, 6, 8) \<and>
   compose_week_message (2024, 6, 1) db_two =
     Inr (WEEK_HEADER @ concat (map ((#) (CHR 0x0A))
       [[], ''Nome: Bea'', ''Idade: 41'', ''WhatsApp: +5586911112222'',
        ''Primeira consulta: 02/05/2024'', ''Pr'' @ [CHR 0xF3] @ ''ximas (7 dias): 04/06/2024'',
        ''Plano: 3 meses | Retornos pagos: 1'', ''Obs: -'', ''[ ------------------------- ]'']))"
proof -
  have add: "date_add_days (2024, 6, 1) 7 = Inr (2024, 6, 8)" by code_simp
  have add2: "date_add_days (2024, 7, 1) 7 = Inr (2024, 7, 8)" by code_simp
  have d1: "appt_date ''2024-06-01'' = Inr (2024, 6, 1)" by code_simp
  have d2: "appt_date ''2024-06-08'' = Inr (2024, 6, 8)" by code_simp
  have d3: "appt_date ''2024-05-31'' = Inr (2024, 5, 31)" by code_simp
  have n3: "next_day (2024, 5, 31) = Inr (2024, 6, 1)" by code_simp
  have d4: "appt_date ''2024-06-09'' = Inr (2024, 6, 9)" by code_simp
  have n4: "next_day (2024, 6, 8) = Inr (2024, 6, 9)" by code_simp
  have d5: "appt_date ''amanha'' = Inl ValueError" by code_simp
  have d6: "appt_date (CHR 0x1F # ''2024-06-04'') = Inl ValueError" by code_simp
  have vd: "valid_date (2024, 6, 8)" by code_simp
  note w = week_window_inclusive [OF add]
  note w2 = week_window_inclusive [OF add2]
  have a1: "\<exists>rest. compose_week_message (2024, 6, 1) db_two = Inr (WEEK_HEADER @ CHR 0x0A # rest)"
    using w [where db = db_two] by (rule conjunct1)
  have e1: "filter (in_week_window (2024, 7, 1) (2024, 7, 8))
      (scheduled_dates db_two (c_id client_bea)) = []"
    by code_simp
  have e2: "c_hidden client_caio = Some 1" by (simp add: client_caio_def)
  have e3: "clients db_two = [client_bea, client_caio]" by (simp add: db_two_def)
  have b0: "\<forall>c \<in> set (clients db_two). c_hidden c = Some 0 \<longrightarrow>
      filter (in_week_window (2024, 7, 1) (2024, 7, 8)) (scheduled_dates db_two (c_id c)) = []"
    using e1 e2 by (simp add: e3)
  have b1: "compose_week_message (2024, 7, 1) db_two = Inr (WEEK_HEADER @ CHR 0x0A # WEEK_EMPTY)"
    using w2 [where db = db_two, THEN conjunct2, THEN conjunct1] b0 by (rule mp)
  have h: "client_bea \<in> set (clients db_two)" "c_hidden client_bea = Some 0"
    "appt_bea \<in> set (appointments db_two)" "a_client_id appt_bea = c_id client_bea"
    "a_status appt_bea = Some STATUS_AGENDADO"
    by (simp_all add: db_two_def client_bea_def appt_bea_def)
  have hw: "in_week_window (2024, 6, 1) (2024, 6, 8) (a_date appt_bea)"
    unfolding appt_bea_def by code_simp
  have hh: "client_bea \<in> set (clients db_two) \<and> c_hidden client_bea = Some 0 \<and>
        appt_bea \<in> set (appointments db_two) \<and> a_client_id appt_bea = c_id client_bea \<and>
        a_status appt_bea = Some STATUS_AGENDADO \<and>
        in_week_window (2024, 6, 1) (2024, 6, 8) (a_date appt_bea)"
    using h hw by (intro conjI)
  have c1: "\<exists>pre mid post l r.
      compose_week_message (2024, 6, 1) db_two =
        Inr (WEEK_HEADER @ pre @ CHR 0x0A # ''Nome: '' @ c_name client_bea @ CHR 0x0A # mid @
          CHR 0x0A # ''Pr'' @ [CHR 0xF3] @ ''ximas (7 dias): '' @
          drop 2 (concat (map ((@) '', '') (map human_date
            (filter (in_week_window (2024, 6, 1) (2024, 6, 8))
               (scheduled_dates db_two (c_id client_bea)))))) @
          CHR 0x0A # post) \<and>
      drop 2 (concat (map ((@) '', '') (map human_date
        (filter (in_week_window (2024, 6, 1) (2024, 6, 8))
           (scheduled_dates db_two (c_id client_bea)))))) =
        l @ human_date (a_date appt_bea) @ r"
    using w [where db = db_two and c = client_bea and a = appt_bea,
        THEN conjunct2, THEN conjunct2, THEN conjunct1] hh
    by (rule mp)
  have a2: "in_week_window (2024, 6, 1) (2024, 6, 8) ''2024-06-01''"
    using w [where s = "''2024-06-01''",
        THEN conjunct2, THEN conjunct2, THEN conjunct2, THEN conjunct1] d1 by simp
  have a3: "in_week_window (2024, 6, 1) (2024, 6, 8) ''2024-06-08''"
    using w [where s = "''2024-06-08''",
        THEN conjunct2, THEN conjunct2, THEN conjunct2, THEN conjunct1] d2 by simp
  have a4: "\<not> in_week_window (2024, 6, 1) (2024, 6, 8) ''2024-05-31''"
    using w [where s = "''2024-05-31''" and d = "(2024, 5, 31)",
        THEN conjunct2, THEN conjunct2, THEN conjunct2, THEN conjunct2, THEN conjunct1]
      d3 n3 by simp
  have a5: "\<not> in_week_window (2024, 6, 1) (2024, 6, 8) ''2024-06-09''"
    using w [where s = "''2024-06-09''" and d = "(2024, 6, 9)",
        THEN conjunct2, THEN conjunct2, THEN conjunct2, THEN conjunct2, THEN conjunct1]
      d4 n4 by simp
  have a6: "\<not> in_week_window (2024, 6, 1) (2024, 6, 8) ''amanha''"
    using w [where s = "''amanha''" and e = ValueError,
        THEN conjunct2, THEN conjunct2, THEN conjunct2, THEN conjunct2, THEN conjunct2, THEN conjunct1] d5 by simp
  have a7: "\<not> in_week_window (2024, 6, 1) (2024, 6, 8) (CHR 0x1F # ''2024-06-04'')"
    using w [where s = "CHR 0x1F # ''2024-06-04''" and e = ValueError,
        THEN conjunct2, THEN conjunct2, THEN conjunct2, THEN conjunct2, THEN conjunct2, THEN conjunct1] d6 by simp
  have a8: "appt_date (qt_to_string (2024, 6, 8)) = Inr (2024, 6, 8)"
    using w [where t = "(2024, 6, 8)",
        THEN conjunct2, THEN conjunct2, THEN conjunct2, THEN conjunct2, THEN conjunct2, THEN conjunct2] vd
    by (rule mp)
  have m: "compose_week_message (2024, 6, 1) db_two =
     Inr (WEEK_HEADER @ concat (map ((#) (CHR 0x0A))
       [[], ''Nome: Bea'', ''Idade: 41'', ''WhatsApp: +5586911112222'',
        ''Primeira consulta: 02/05/2024'', ''Pr'' @ [CHR 0xF3] @ ''ximas (7 dias): 04/06/2024'',
        ''Plano: 3 meses | Retornos pagos: 1'', ''Obs: -'', ''[ ------------------------- ]'']))"
  proof -
    have v: "visible_clients_by_name db_two = [client_bea]"
      by (simp add: visible_clients_by_name_def db_two_def client_bea_def client_caio_def)
    have i: "appts_in_week (2024, 6, 1) (2024, 6, 8) (scheduled_dates db_two (c_id client_bea)) =
        [''04/06/2024'']"
      by code_simp
    have b: "digest_block client_bea [''04/06/2024''] =
        [[], ''Nome: Bea'', ''Idade: 41'', ''WhatsApp: +5586911112222'',
          ''Primeira consulta: 02/05/2024'', ''Pr'' @ [CHR 0xF3] @ ''ximas (7 dias): 04/06/2024'',
          ''Plano: 3 meses | Retornos pagos: 1'', ''Obs: -'', ''[ ------------------------- ]'']"
      by code_simp
    have l: "week_lines (2024, 6, 1) (2024, 6, 8) db_two =
        WEEK_HEADER # digest_block client_bea [''04/06/2024'']"
      by (simp add: week_lines_concat v digest_step_def i)
    show ?thesis
      unfolding compose_week_message_result [OF add] l b py_join_cons by simp
  qed
  from add a1 add2 e3 e2 e1 b1 h hw c1 a2 a3 a4 a5 a6 a7 vd a8 m show ?thesis by (intro conjI)
qed

subsection \<open>The PDF report and the hidden flag\<close>

lemma pdf_row_error: "pdf_row parses db c = Inl e \<Longrightarrow> e = ValueError"
  by (auto simp: pdf_row_def Let_def ebind_def Paragraph_def split: if_splits)

lemma pdf_rows_ok:
  assumes "\<forall>c \<in> set cs. \<exists>r. pdf_row parses db c = Inr r"
  shows "\<exists>rows. pdf_rows parses db cs data = Inr (data @ rows) \<and>
     map Inr rows = map (pdf_row parses db) cs"
  using assms
proof (induction cs arbitrary: data)
  case Nil
  show ?case by simp
next
  case (Cons c cs)
  from Cons.prems obtain r where r: "pdf_row parses db c = Inr r" by auto
  from Cons.prems have "\<forall>c \<in> set cs. \<exists>r. pdf_row parses db c = Inr r" by simp
  from Cons.IH [OF this, of "data @ [r]"] obtain rows where
    rows: "pdf_rows parses db cs (data @ [r]) = Inr ((data @ [r]) @ rows)"
      "map Inr rows = map (pdf_row parses db) cs" by blast
  have "pdf_rows parses db (c # cs) data = Inr (data @ r # rows)"
    by (simp add: r ebind_def rows(1))
  moreover have "map Inr (r # rows) = map (pdf_row parses db) (c # cs)"
    by (simp add: r rows(2))
  ultimately show ?case by blast
qed

lemma pdf_rows_error:
  assumes "c \<in> set cs" "pdf_row parses db c = Inl e"
  shows "pdf_rows parses db cs data = Inl ValueError"
  using assms
proof (induction cs arbitrary: data)
  case Nil
  then show ?case by simp
next
  case (Cons x xs)
  show ?case
  proof (cases "pdf_row parses db x")
    case (Inl e')
    with pdf_row_error [OF Inl] show ?thesis by (simp add: ebind_def)
  next
    case (Inr r)
    with Cons.prems have "c \<in> set xs" by auto
    from Cons.IH [OF this Cons.prems(2)] Inr show ?thesis by (simp add: ebind_def)
  qed
qed

lemma nocase_char_upper:
  "map nocase_char ''ABCDEFGHIJKLMNOPQRSTUVWXYZ'' = ''abcdefghijklmnopqrstuvwxyz''"
  by (simp add: nocase_char_def)

lemma nocase_char_other: "c \<notin> set ''ABCDEFGHIJKLMNOPQRSTUVWXYZ'' \<Longrightarrow> nocase_char c = c"
  by (simp add: nocase_char_def)

text \<open>
  The data of the PDF table. When the three \<open>Paragraph\<close> texts of every client parse, the
  data is the header row followed by one row per client, for all clients (the rows follow
  a permutation of the clients table), in ascending order of the pair (\<open>hidden\<close>, name with
  the ASCII upper case letters folded to lower case). When a text of some client does not
  parse, \<open>export_pdf\<close> raises the ValueError and there is no table. The first cell of a
  row is the name, followed by \<open> (OCULTO)\<close> when \<open>hidden\<close> is true. The fifth cell is \<open>-\<close>
  when the client has no scheduled appointment, and otherwise the renderings, separated by
  a comma and a space, of the dates of all its scheduled appointments in ascending order.
\<close>

lemma export_pdf_data_table:
  "((\<forall>c \<in> set (clients db). \<exists>r. pdf_row parses db c = Inr r) \<longrightarrow>
      (\<exists>rows. export_pdf_data parses db = Inr (PDF_HEADER # rows) \<and>
         map Inr rows = map (pdf_row parses db) (clients_by_hidden_name db) \<and>
         length rows = length (clients db))) \<and>
   (c \<in> set (clients db) \<and> pdf_row parses db c = Inl e \<longrightarrow>
      export_pdf_data parses db = Inl ValueError) \<and>
   mset (clients_by_hidden_name db) = mset (clients db) \<and>
   sorted (map (\<lambda>c. (c_hidden c, map nocase_char (c_name c))) (clients_by_hidden_name db)) \<and>
   map nocase_char ''ABCDEFGHIJKLMNOPQRSTUVWXYZ'' = ''abcdefghijklmnopqrstuvwxyz'' \<and>
   (x \<notin> set ''ABCDEFGHIJKLMNOPQRSTUVWXYZ'' \<longrightarrow> nocase_char x = x) \<and>
   (pdf_row parses db c = Inr r \<longrightarrow>
      length r = 8 \<and>
      r ! 0 = c_name c @ (if c_hidden c = None \<or> c_hidden c = Some 0 then [] else '' (OCULTO)'') \<and>
      r ! 4 =
        (if scheduled_dates db (c_id c) = [] then ''-''
         else drop 2 (concat (map ((@) '', '') (map human_date (scheduled_dates db (c_id c))))))) \<and>
   (pdf_row parses db c = Inl e \<longrightarrow>
      \<not> (parses (c_name c @ (if c_hidden c = None \<or> c_hidden c = Some 0 then [] else '' (OCULTO)'')) \<and>
         parses (if scheduled_dates db (c_id c) = [] then ''-''
           else drop 2 (concat (map ((@) '', '') (map human_date (scheduled_dates db (c_id c)))))) \<and>
         parses (case c_notes c of None \<Rightarrow> ''-'' | Some n \<Rightarrow> if n = [] then ''-'' else n))) \<and>
   sorted (scheduled_dates db (c_id c)) \<and>
   mset (scheduled_dates db (c_id c)) =
     mset (map a_date (filter (\<lambda>a. a_client_id a = c_id c \<and> a_status a = Some STATUS_AGENDADO)
       (appointments db)))"
proof -
  have two: "length '', '' = 2" by simp
  define N where
    "N = c_name c @ (if c_hidden c = None \<or> c_hidden c = Some 0 then [] else '' (OCULTO)'')"
  define D where "D = (if scheduled_dates db (c_id c) = [] then ''-''
         else drop 2 (concat (map ((@) '', '') (map human_date (scheduled_dates db (c_id c))))))"
  define NT where "NT = (case c_notes c of None \<Rightarrow> ''-'' | Some n \<Rightarrow> if n = [] then ''-'' else n)"
  have n: "c_name c @ (if truthy_int (c_hidden c) then '' (OCULTO)'' else []) = N"
    by (cases "c_hidden c") (simp_all add: N_def truthy_int_def)
  have d: "(if map human_date (scheduled_dates db (c_id c)) \<noteq> []
      then py_join '', '' (map human_date (scheduled_dates db (c_id c))) else ''-'') = D"
    unfolding D_def py_join_drop two by simp
  have o: "or_str (c_notes c) ''-'' = NT"
    by (simp add: NT_def or_str_def)
  have row: "pdf_row parses db c =
      ebind (Paragraph parses N) (\<lambda>name_cell.
      ebind (Paragraph parses D) (\<lambda>dates_cell.
      ebind (Paragraph parses NT) (\<lambda>notes_cell.
        Inr [name_cell, str_int_or (c_age c) [], or_str (c_whatsapp c) [],
             human_date (or_str (c_first_consult c) []), dates_cell,
             py_str_opt_int (c_plan_months c), py_str_opt_int (c_paid_returns c), notes_cell])))"
    unfolding pdf_row_def Let_def n d o ..
  have 1: "(\<forall>c \<in> set (clients db). \<exists>r. pdf_row parses db c = Inr r) \<longrightarrow>
      (\<exists>rows. export_pdf_data parses db = Inr (PDF_HEADER # rows) \<and>
         map Inr rows = map (pdf_row parses db) (clients_by_hidden_name db) \<and>
         length rows = length (clients db))"
  proof
    assume "\<forall>c \<in> set (clients db). \<exists>r. pdf_row parses db c = Inr r"
    then have "\<forall>c \<in> set (clients_by_hidden_name db). \<exists>r. pdf_row parses db c = Inr r"
      by (simp add: clients_by_hidden_name_def)
    from pdf_rows_ok [OF this, of "[PDF_HEADER]"] obtain rows where
      rows: "pdf_rows parses db (clients_by_hidden_name db) [PDF_HEADER] = Inr ([PDF_HEADER] @ rows)"
        "map Inr rows = map (pdf_row parses db) (clients_by_hidden_name db)" by blast
    from rows(2) have "length rows = length (clients_by_hidden_name db)"
      by (metis length_map)
    then have "length rows = length (clients db)" by (simp add: clients_by_hidden_name_def)
    with rows show "\<exists>rows. export_pdf_data parses db = Inr (PDF_HEADER # rows) \<and>
         map Inr rows = map (pdf_row parses db) (clients_by_hidden_name db) \<and>
         length rows = length (clients db)"
      by (simp add: export_pdf_data_def)
  qed
  have 2: "c \<in> set (clients db) \<and> pdf_row parses db c = Inl e \<longrightarrow>
      export_pdf_data parses db = Inl ValueError"
  proof (intro impI, elim conjE)
    assume a: "c \<in> set (clients db)" "pdf_row parses db c = Inl e"
    from a(1) have "c \<in> set (clients_by_hidden_name db)" by (simp add: clients_by_hidden_name_def)
    from pdf_rows_error [OF this a(2)] show "export_pdf_data parses db = Inl ValueError"
      by (simp add: export_pdf_data_def)
  qed
  have 3: "mset (clients_by_hidden_name db) = mset (clients db)"
    by (simp add: clients_by_hidden_name_def)
  have 4: "sorted (map (\<lambda>c. (c_hidden c, map nocase_char (c_name c))) (clients_by_hidden_name db))"
    using sorted_sort_key [of "\<lambda>c. (c_hidden c, nocase (c_name c))" "clients db"]
    by (simp add: clients_by_hidden_name_def nocase_def)
  note 5 = nocase_char_upper
  have 6: "x \<notin> set ''ABCDEFGHIJKLMNOPQRSTUVWXYZ'' \<longrightarrow> nocase_char x = x"
    using nocase_char_other by blast
  have 7: "pdf_row parses db c = Inr r \<longrightarrow> length r = 8 \<and> r ! 0 = N \<and> r ! 4 = D"
    unfolding row by (auto simp: ebind_def Paragraph_def split: if_splits)
  have 8: "pdf_row parses db c = Inl e \<longrightarrow> \<not> (parses N \<and> parses D \<and> parses NT)"
    unfolding row by (auto simp: ebind_def Paragraph_def split: if_splits)
  have 9: "sorted (scheduled_dates db (c_id c))"
    by (simp add: scheduled_dates_def)
  have 10: "mset (scheduled_dates db (c_id c)) =
     mset (map a_date (filter (\<lambda>a. a_client_id a = c_id c \<and> a_status a = Some STATUS_AGENDADO)
       (appointments db)))"
    by (simp add: scheduled_dates_def is_scheduled_of_def)
  from 1 2 3 4 5 6 7 8 9 10 show ?thesis unfolding N_def D_def NT_def by (intro conjI)
qed

text \<open>
  Claim C9: the report has one row per client for all clients. The code hands the name, the
  dates and the notes to \<open>Paragraph\<close> as they are stored, without escaping them, and
  \<open>Paragraph\<close> reads them as markup. For the database \<open>db_pdf\<close> the table is as the claim
  says: both clients, the one with \<open>hidden = 0\<close> first, the hidden one with the suffix, the
  two scheduled dates of the first in ascending order with a comma between them. With a
  third client whose name is \<open>a <b\<close> the ValueError of \<open>Paragraph\<close> leaves \<open>export_pdf\<close>
  and no report is written, for any client.
\<close>

theorem export_pdf_markup_name:
  "export_pdf_data no_markup db_pdf =
     Inr [PDF_HEADER,
          [''Bea'', ''41'', ''+5586911112222'', ''02/05/2024'', ''02/06/2024, 04/06/2024'', ''3'',
           ''1'', ''-''],
          [''caio (OCULTO)'', [], [], [], ''05/06/2024'', ''1'', ''0'', ''vegano'']] \<and>
   c_name client_markup = ''a <b'' \<and> client_markup \<in> set (clients db_markup) \<and>
   \<not> no_markup (c_name client_markup) \<and>
   export_pdf_data no_markup db_markup = Inl ValueError"
proof -
  have 1: "export_pdf_data no_markup db_pdf =
     Inr [PDF_HEADER,
          [''Bea'', ''41'', ''+5586911112222'', ''02/05/2024'', ''02/06/2024, 04/06/2024'', ''3'',
           ''1'', ''-''],
          [''caio (OCULTO)'', [], [], [], ''05/06/2024'', ''1'', ''0'', ''vegano'']]"
    by code_simp
  have 2: "c_name client_markup = ''a <b''" "client_markup \<in> set (clients db_markup)"
    "\<not> no_markup (c_name client_markup)"
    by (simp_all add: client_markup_def db_markup_def no_markup_def)
  have 3: "export_pdf_data no_markup db_markup = Inl ValueError"
    by code_simp
  from 1 2 3 show ?thesis by (intro conjI)
qed

lemma scheduled_dates_clients [simp]:
  "scheduled_dates (db\<lparr>clients := cs\<rparr>) cid = scheduled_dates db cid"
  by (simp add: scheduled_dates_def)

lemma digest_step_clients [simp]:
  "digest_step today limit (db\<lparr>clients := cs\<rparr>) = digest_step today limit db"
  by (intro ext) (simp add: digest_step_def)

lemma filter_removeAll_not: "\<not> P c \<Longrightarrow> filter P (removeAll c cs) = filter P cs"
  by (induction cs) auto

lemma week_lines_without_hidden:
  "c_hidden c \<noteq> Some 0 \<Longrightarrow>
   week_lines today limit (db\<lparr>clients := removeAll c (clients db)\<rparr>) = week_lines today limit db"
  by (simp add: week_lines_def visible_clients_by_name_def filter_removeAll_not)

lemma compose_without_hidden:
  "c_hidden c \<noteq> Some 0 \<Longrightarrow>
   compose_week_message today (db\<lparr>clients := removeAll c (clients db)\<rparr>) =
     compose_week_message today db"
  by (simp add: compose_week_message_def week_lines_without_hidden)

lemma hidden_order:
  assumes "sorted (map (\<lambda>c. (c_hidden c, nocase (c_name c))) cs)"
    "i < length cs" "j < length cs" "c_hidden (cs ! i) = Some h" "c_hidden (cs ! j) = Some 0"
  shows "0 < h \<Longrightarrow> j < i" and "h < 0 \<Longrightarrow> i < j"
proof -
  have le: "c_hidden (cs ! a) \<le> c_hidden (cs ! b)" if "a \<le> b" "b < length cs" for a b
  proof -
    from that assms(1) have "map (\<lambda>c. (c_hidden c, nocase (c_name c))) cs ! a \<le>
        map (\<lambda>c. (c_hidden c, nocase (c_name c))) cs ! b"
      by (intro sorted_nth_mono) simp_all
    with that have "(c_hidden (cs ! a), nocase (c_name (cs ! a))) \<le>
        (c_hidden (cs ! b), nocase (c_name (cs ! b)))" by simp
    then show ?thesis by (auto simp: less_le)
  qed
  show "j < i" if "0 < h"
  proof (rule ccontr)
    assume "\<not> j < i"
    then have "i \<le> j" by simp
    from le [OF this assms(3)] assms(4,5) that show False by simp
  qed
  show "i < j" if "h < 0"
  proof (rule ccontr)
    assume "\<not> i < j"
    then have "j \<le> i" by simp
    from le [OF this assms(2)] assms(4,5) that show False by simp
  qed
qed

text \<open>
  Claim C5, as amended. A client whose \<open>hidden\<close> is true (any integer but 0; the
  application writes 1) is not among the clients the digest loops over, and the digest is
  the one the database without that client would give. In the table the client's row is
  outside the rows with \<open>hidden = 0\<close>: after every one of them when its \<open>hidden\<close> is
  positive, before every one of them when it is negative. The client's record is among the
  records written to the clients CSV file, which is in the file system after \<open>export_csv\<close>
  when the companion file has another name. When the \<open>Paragraph\<close> texts of every client
  parse, the PDF table is built and holds the client's row, with \<open> (OCULTO)\<close> after the
  name.
\<close>

theorem hidden_client_views:
  assumes "c \<in> set (clients db)" and "c_hidden c = Some h" and "h \<noteq> 0"
  shows "c \<notin> set (visible_clients_by_name db) \<and>
    week_lines today limit (db\<lparr>clients := removeAll c (clients db)\<rparr>) = week_lines today limit db \<and>
    compose_week_message today (db\<lparr>clients := removeAll c (clients db)\<rparr>) =
      compose_week_message today db \<and>
    model_rows (load_table st) = map table_row_of (clients_by_hidden_name (app_db st)) \<and>
    c \<in> set (clients_by_hidden_name db) \<and>
    (i < length (clients_by_hidden_name db) \<and> j < length (clients_by_hidden_name db) \<and>
     clients_by_hidden_name db ! i = c \<and> c_hidden (clients_by_hidden_name db ! j) = Some 0
       \<longrightarrow> (if 0 < h then j < i else i < j)) \<and>
    client_csv_row c \<in> set (tl (clients_csv db)) \<and>
    (app_db st = db \<and> fn \<noteq> [] \<and> fn_appts_of fn \<noteq> fn \<longrightarrow>
       fst (export_csv fn fs st) fn = Some (clients_csv db)) \<and>
    ((\<forall>x \<in> set (clients db). \<exists>r. pdf_row parses db x = Inr r) \<longrightarrow>
       (\<exists>rows r. export_pdf_data parses db = Inr (PDF_HEADER # rows) \<and> r \<in> set rows \<and>
          pdf_row parses db c = Inr r \<and> r ! 0 = c_name c @ '' (OCULTO)''))"
proof -
  from assms(2,3) have nh: "c_hidden c \<noteq> Some 0" by simp
  have 1: "c \<notin> set (visible_clients_by_name db)"
    using nh by (simp add: visible_clients_set)
  note 2 = week_lines_without_hidden [OF nh, of today limit db]
  note 3 = compose_without_hidden [OF nh, of today db]
  have 4: "model_rows (load_table st) = map table_row_of (clients_by_hidden_name (app_db st))"
    by (simp add: load_table_def)
  have 5: "c \<in> set (clients_by_hidden_name db)"
    using assms(1) by (simp add: clients_by_hidden_name_def)
  have 6: "i < length (clients_by_hidden_name db) \<and> j < length (clients_by_hidden_name db) \<and>
     clients_by_hidden_name db ! i = c \<and> c_hidden (clients_by_hidden_name db ! j) = Some 0
       \<longrightarrow> (if 0 < h then j < i else i < j)"
  proof (intro impI, elim conjE)
    assume a: "i < length (clients_by_hidden_name db)" "j < length (clients_by_hidden_name db)"
      "clients_by_hidden_name db ! i = c" "c_hidden (clients_by_hidden_name db ! j) = Some 0"
    have s: "sorted (map (\<lambda>c. (c_hidden c, nocase (c_name c))) (clients_by_hidden_name db))"
      by (simp add: clients_by_hidden_name_def)
    from a(3) assms(2) have "c_hidden (clients_by_hidden_name db ! i) = Some h" by simp
    note o = hidden_order [OF s a(1,2) this a(4)]
    show "if 0 < h then j < i else i < j"
    proof (cases "0 < h")
      case True
      with o(1) show ?thesis by simp
    next
      case False
      with assms(3) have "h < 0" by simp
      with o(2) False show ?thesis by simp
    qed
  qed
  have 7: "client_csv_row c \<in> set (tl (clients_csv db))"
    using assms(1) by (simp add: clients_csv_def)
  have 8: "app_db st = db \<and> fn \<noteq> [] \<and> fn_appts_of fn \<noteq> fn \<longrightarrow>
       fst (export_csv fn fs st) fn = Some (clients_csv db)"
    by (auto simp: export_csv_def Let_def)
  have 9: "(\<forall>x \<in> set (clients db). \<exists>r. pdf_row parses db x = Inr r) \<longrightarrow>
       (\<exists>rows r. export_pdf_data parses db = Inr (PDF_HEADER # rows) \<and> r \<in> set rows \<and>
          pdf_row parses db c = Inr r \<and> r ! 0 = c_name c @ '' (OCULTO)'')"
  proof
    assume a: "\<forall>x \<in> set (clients db). \<exists>r. pdf_row parses db x = Inr r"
    with assms(1) obtain r where r: "pdf_row parses db c = Inr r" by blast
    note t = export_pdf_data_table [of db parses c _ _ r]
    from t [THEN conjunct1] a obtain rows where
      rows: "export_pdf_data parses db = Inr (PDF_HEADER # rows)"
        "map Inr rows = map (pdf_row parses db) (clients_by_hidden_name db)" by blast
    from 5 have "Inr r \<in> set (map (pdf_row parses db) (clients_by_hidden_name db))"
      using r by (metis image_eqI set_map)
    then have "Inr r \<in> set (map Inr rows :: (py_error + string list) list)"
      by (simp only: rows(2))
    then have m: "r \<in> set rows" by auto
    from t r have "r ! 0 =
        c_name c @ (if c_hidden c = None \<or> c_hidden c = Some 0 then [] else '' (OCULTO)'')"
      by blast
    with assms(2,3) have n: "r ! 0 = c_name c @ '' (OCULTO)''" by simp
    from rows(1) m r n
    show "\<exists>rows r. export_pdf_data parses db = Inr (PDF_HEADER # rows) \<and> r \<in> set rows \<and>
          pdf_row parses db c = Inr r \<and> r ! 0 = c_name c @ '' (OCULTO)''" by blast
  qed
  from 1 2 3 4 5 6 7 8 9 show ?thesis by (intro conjI)
qed

lemma db_two_sorted: "clients_by_hidden_name db_two = [client_bea, client_caio]"
  by (simp add: clients_by_hidden_name_def db_two_def client_bea_def client_caio_def)

lemma db_neg_sorted: "clients_by_hidden_name db_neg = [client_neg, client_bea]"
  by (simp add: clients_by_hidden_name_def db_neg_def db_two_def client_bea_def client_neg_def
      client_caio_def)

theorem hidden_client_views_witness:
  "client_caio \<in> set (clients db_two) \<and> c_hidden client_caio = Some 1 \<and> (1::int) \<noteq> 0 \<and>
   client_caio \<notin> set (visible_clients_by_name db_two) \<and>
   compose_week_message (2024, 6, 1) (db_two\<lparr>clients := removeAll client_caio (clients db_two)\<rparr>) =
     compose_week_message (2024, 6, 1) db_two \<and>
   1 < length (clients_by_hidden_name db_two) \<and> clients_by_hidden_name db_two ! 1 = client_caio \<and>
   c_hidden (clients_by_hidden_name db_two ! 0) = Some 0 \<and> (0::nat) < 1 \<and>
   client_csv_row client_caio \<in> set (tl (clients_csv db_two)) \<and>
   fn_appts_of ''clientes.csv'' \<noteq> ''clientes.csv'' \<and>
   fst (export_csv ''clientes.csv'' Map.empty (app_of db_two form_ana)) ''clientes.csv'' =
     Some (clients_csv db_two) \<and>
   clients db_two = [client_bea, client_caio] \<and>
   pdf_row no_markup db_two client_bea =
     Inr [''Bea'', ''41'', ''+5586911112222'', ''02/05/2024'', ''04/06/2024'', ''3'', ''1'', ''-''] \<and>
   pdf_row no_markup db_two client_caio =
     Inr [''caio (OCULTO)'', [], [], [], ''05/06/2024'', ''1'', ''0'', ''vegano''] \<and>
   (\<exists>rows r. export_pdf_data no_markup db_two = Inr (PDF_HEADER # rows) \<and> r \<in> set rows \<and>
      pdf_row no_markup db_two client_caio = Inr r \<and> r ! 0 = ''caio (OCULTO)'') \<and>
   client_neg \<in> set (clients db_neg) \<and> c_hidden client_neg = Some (- 1) \<and> (- 1::int) \<noteq> 0 \<and>
   clients_by_hidden_name db_neg ! 0 = client_neg \<and>
   c_hidden (clients_by_hidden_name db_neg ! 1) = Some 0 \<and> (0::nat) < 1"
proof -
  have h1: "client_caio \<in> set (clients db_two)" by (simp add: db_two_def)
  have h2: "c_hidden client_caio = Some 1" by (simp add: client_caio_def)
  have h3: "(1::int) \<noteq> 0" by simp
  have t: "1 < length (clients_by_hidden_name db_two)" "0 < length (clients_by_hidden_name db_two)"
    "clients_by_hidden_name db_two ! 1 = client_caio"
    "c_hidden (clients_by_hidden_name db_two ! 0) = Some 0"
    by (simp_all add: db_two_sorted client_bea_def)
  have f: "fn_appts_of ''clientes.csv'' \<noteq> ''clientes.csv''"
    unfolding fn_appts_of_def by code_simp
  have d: "app_db (app_of db_two form_ana) = db_two" by (simp add: app_of_def)
  have p0: "clients db_two = [client_bea, client_caio]" by (simp add: db_two_def)
  have p1: "pdf_row no_markup db_two client_bea =
     Inr [''Bea'', ''41'', ''+5586911112222'', ''02/05/2024'', ''04/06/2024'', ''3'', ''1'', ''-'']"
    by code_simp
  have p2: "pdf_row no_markup db_two client_caio =
     Inr [''caio (OCULTO)'', [], [], [], ''05/06/2024'', ''1'', ''0'', ''vegano'']"
    by code_simp
  have p: "\<forall>x \<in> set (clients db_two). \<exists>r. pdf_row no_markup db_two x = Inr r"
    using p1 p2 by (simp add: p0)
  note w = hidden_client_views [OF h1 h2 h3, of "(2024, 6, 1)" _ "app_of db_two form_ana" 1 0
      "''clientes.csv''" Map.empty no_markup]
  have n: "c_name client_caio = ''caio''" by (simp add: client_caio_def)
  have r1: "client_caio \<notin> set (visible_clients_by_name db_two)"
    using w by (rule conjunct1)
  have r2: "compose_week_message (2024, 6, 1)
      (db_two\<lparr>clients := removeAll client_caio (clients db_two)\<rparr>) =
       compose_week_message (2024, 6, 1) db_two"
    using w [THEN conjunct2, THEN conjunct2] by (rule conjunct1)
  note w5 = w [THEN conjunct2, THEN conjunct2, THEN conjunct2, THEN conjunct2, THEN conjunct2]
  have tt: "1 < length (clients_by_hidden_name db_two) \<and>
        0 < length (clients_by_hidden_name db_two) \<and>
        clients_by_hidden_name db_two ! 1 = client_caio \<and>
        c_hidden (clients_by_hidden_name db_two ! 0) = Some 0"
    using t by (intro conjI)
  have "if (0::int) < 1 then (0::nat) < 1 else (1::nat) < 0"
    using w5 [THEN conjunct1] tt by (rule mp)
  then have r3: "(0::nat) < 1" by simp
  have r4: "client_csv_row client_caio \<in> set (tl (clients_csv db_two))"
    using w5 [THEN conjunct2] by (rule conjunct1)
  have r5: "fst (export_csv ''clientes.csv'' Map.empty (app_of db_two form_ana)) ''clientes.csv'' =
       Some (clients_csv db_two)"
    using w5 [THEN conjunct2, THEN conjunct2, THEN conjunct1] d f by simp
  have q: "\<exists>rows r. export_pdf_data no_markup db_two = Inr (PDF_HEADER # rows) \<and>
      r \<in> set rows \<and> pdf_row no_markup db_two client_caio = Inr r \<and> r ! 0 = ''caio (OCULTO)''"
    using w5 [THEN conjunct2, THEN conjunct2, THEN conjunct2, THEN mp, OF p] by (simp add: n)
  have g1: "client_neg \<in> set (clients db_neg)" by (simp add: db_neg_def)
  have g2: "c_hidden client_neg = Some (- 1)" by (simp add: client_neg_def)
  have g3: "(- 1::int) \<noteq> 0" by simp
  have u: "1 < length (clients_by_hidden_name db_neg)" "0 < length (clients_by_hidden_name db_neg)"
    "clients_by_hidden_name db_neg ! 0 = client_neg"
    "c_hidden (clients_by_hidden_name db_neg ! 1) = Some 0"
    by (simp_all add: db_neg_sorted client_bea_def)
  note v = hidden_client_views [OF g1 g2 g3, of _ _ _ 0 1,
      THEN conjunct2, THEN conjunct2, THEN conjunct2, THEN conjunct2, THEN conjunct2,
      THEN conjunct1]
  have uu: "0 < length (clients_by_hidden_name db_neg) \<and>
        1 < length (clients_by_hidden_name db_neg) \<and>
        clients_by_hidden_name db_neg ! 0 = client_neg \<and>
        c_hidden (clients_by_hidden_name db_neg ! 1) = Some 0"
    using u by (intro conjI)
  have "if (0::int) < - 1 then (1::nat) < 0 else (0::nat) < 1"
    using v uu by (rule mp)
  then have k: "(0::nat) < 1" by simp
  from h1 h2 h3 r1 r2 t(1,3,4) r3 r4 f r5 p0 p1 p2 q g1 g2 g3 u(3,4) k show ?thesis
    by (intro conjI)
qed

text \<open>
  The claim as stated fails in the table for a negative \<open>hidden\<close>: the client counts as
  hidden (the value is true, and the digest leaves the client out) and yet its row stands
  first, before the row with \<open>hidden = 0\<close>. It fails for the PDF report when a text of some
  client does not parse: no report is written, so the hidden client is in none.
\<close>

theorem hidden_negative_counterexample:
  "client_neg \<in> set (clients db_neg) \<and> c_hidden client_neg = Some (- 1) \<and>
   truthy_int (c_hidden client_neg) \<and> client_neg \<notin> set (visible_clients_by_name db_neg) \<and>
   c_hidden client_bea = Some 0 \<and>
   model_rows (load_table (app_of db_neg form_ana)) =
     [table_row_of client_neg, table_row_of client_bea] \<and>
   client_caio \<in> set (clients db_markup) \<and> c_hidden client_caio = Some 1 \<and>
   export_pdf_data no_markup db_markup = Inl ValueError"
proof -
  have 1: "client_neg \<in> set (clients db_neg)" "c_hidden client_neg = Some (- 1)"
    "truthy_int (c_hidden client_neg)" "c_hidden client_bea = Some 0"
    by (simp_all add: db_neg_def client_neg_def truthy_int_def client_bea_def)
  have 2: "client_neg \<notin> set (visible_clients_by_name db_neg)"
    by (simp add: visible_clients_set 1)
  have 3: "model_rows (load_table (app_of db_neg form_ana)) =
     [table_row_of client_neg, table_row_of client_bea]"
    by (simp add: load_table_def app_of_def db_neg_sorted)
  have 4: "client_caio \<in> set (clients db_markup)" "c_hidden client_caio = Some 1"
    by (simp_all add: db_markup_def client_caio_def)
  have 5: "export_pdf_data no_markup db_markup = Inl ValueError"
    by code_simp
  from 1(1,2,3) 2 1(4) 3 4 5 show ?thesis by (intro conjI)
qed

subsection \<open>The companion file of the import\<close>

declare py_replace.simps [simp del]

lemma py_replace_suffix:
  "CHR ''.'' \<notin> set base \<Longrightarrow> py_replace ''.csv'' new (base @ ''.csv'') = base @ new"
proof (induction base)
  case Nil
  have "py_replace ''.csv'' new [] = []" by (subst py_replace.simps) simp
  then show ?case by (subst py_replace.simps) simp
next
  case (Cons b bs)
  then have "b \<noteq> CHR ''.''" and ih: "py_replace ''.csv'' new (bs @ ''.csv'') = bs @ new"
    by auto
  then show ?case by (subst py_replace.simps) simp
qed

lemma companion_by_suffix_append:
  "companion_by_suffix (base @ ''.csv'') = base @ ''_consultas.csv''"
  by (simp add: companion_by_suffix_def)

text \<open>
  When no file of the name that \<open>import_csv\<close> computes exists, \<open>import_csv\<close> only shows
  the warning: it returns normally with the database it started from. For a name whose only
  dot is that of the suffix \<open>.csv\<close>, the name it computes is the name with the suffix
  replaced.
\<close>

lemma import_csv_missing_companion:
  assumes "fn \<noteq> []" and "fs (fn_appts_of fn) = None"
  shows "import_csv fn yes fs st = Inr (show_dialog msg_csv_missing st) \<and>
     app_db (show_dialog msg_csv_missing st) = app_db st \<and>
     dialogs (show_dialog msg_csv_missing st) = dialogs st @ [msg_csv_missing] \<and>
     (CHR ''.'' \<notin> set base \<longrightarrow>
        fn_appts_of (base @ ''.csv'') = base @ ''_consultas.csv'' \<and>
        companion_by_suffix (base @ ''.csv'') = base @ ''_consultas.csv'')"
  using assms
  by (simp add: import_csv_def show_dialog_def fn_appts_of_def py_replace_suffix
      companion_by_suffix_append)

lemma read_record_header:
  "read_record CLIENTS_HEADER = Inr CLIENTS_HEADER" "read_record APPTS_HEADER = Inr APPTS_HEADER"
  by (simp_all add: read_record_def CLIENTS_HEADER_def APPTS_HEADER_def FIELD_SIZE_LIMIT_def)

text \<open>
  Claim C8: when the chosen name with its suffix \<open>.csv\<close> replaced by \<open>_consultas.csv\<close> is
  not the name of a file, the import warns and changes nothing. The code computes the
  companion with \<open>str.replace\<close>, which replaces every \<open>.csv\<close> of the name and not only
  the suffix. The files below are those that \<open>export_csv\<close> writes for the name
  \<open>x.csv.csv\<close> from an empty database. On the import of \<open>x.csv.csv\<close> the name with the
  suffix replaced, \<open>x.csv_consultas.csv\<close>, is not the name of a file, and yet there is no
  warning: both tables are emptied and filled from the two files, which hold no row.
\<close>

theorem import_csv_double_suffix:
  "fst (export_csv ''x.csv.csv'' Map.empty (app_of db_empty form_ana)) = fs_x \<and>
   companion_by_suffix ''x.csv.csv'' = ''x.csv_consultas.csv'' \<and>
   fs_x ''x.csv_consultas.csv'' = None \<and>
   import_csv ''x.csv.csv'' True fs_x (app_of db_two form_ana) =
     Inr (show_dialog msg_importado (load_table
       ((app_of db_two form_ana)\<lparr>app_db := db_two\<lparr>appointments := [], clients := []\<rparr>\<rparr>))) \<and>
   clients db_two = [client_bea, client_caio] \<and>
   appointments db_two = [appt_bea, appt_bea_done, appt_caio]"
proof -
  have c: "companion_by_suffix ''x.csv.csv'' = ''x.csv_consultas.csv''"
    by (simp add: companion_by_suffix_def)
  have f: "fn_appts_of ''x.csv.csv'' = ''x_consultas.csv_consultas.csv''"
    unfolding fn_appts_of_def by code_simp
  have 0: "fst (export_csv ''x.csv.csv'' Map.empty (app_of db_empty form_ana)) = fs_x"
    by (simp add: export_csv_def Let_def f fs_x_def app_of_def db_empty_def clients_csv_def
        appts_csv_def)
  have 1: "fs_x ''x.csv_consultas.csv'' = None"
    by (simp add: fs_x_def)
  have 2: "fs_x ''x_consultas.csv_consultas.csv'' = Some [APPTS_HEADER]"
    "fs_x ''x.csv.csv'' = Some [CLIENTS_HEADER]"
    by (simp_all add: fs_x_def)
  have 3: "import_csv ''x.csv.csv'' True fs_x (app_of db_two form_ana) =
     Inr (show_dialog msg_importado (load_table
       ((app_of db_two form_ana)\<lparr>app_db := db_two\<lparr>appointments := [], clients := []\<rparr>\<rparr>)))"
    by (simp add: import_csv_def f 2 dict_reader_def read_record_header ebind_def app_of_def)
  have 4: "clients db_two = [client_bea, client_caio]"
    "appointments db_two = [appt_bea, appt_bea_done, appt_caio]"
    by (simp_all add: db_two_def)
  from 0 c 1 3 4 show ?thesis by (intro conjI)
qed

end
